theory Spec2Isabelle
  imports Complex_Main
begin

section \<open>The Zn clock model of \<^verbatim>\<open>zn_model_code.py\<close>\<close>

text \<open>
  The lattice is a numpy array of 64-bit signed integers of shape \<open>(L, L)\<close>; it is modelled
  as a list of rows of integers, and the one place where the source computes with a cell,
  the sum \<open>self.lattice[x, y] + delta\<close> of the proposal, wraps around as numpy's 64-bit
  addition does. Energies, the field \<open>H\<close> and the temperature \<open>T\<close> are Python/numpy floats and
  are modelled as real numbers, without rounding. Exceptions are values of type \<open>error\<close>.
  The pseudo-random generator is an input: every value it returns is a parameter of the
  operation that draws it.
\<close>

subsection \<open>Errors and the object\<close>

datatype error = ValueError | IndexError | ZeroDivisionError

definition bindE :: "error + 'a \<Rightarrow> ('a \<Rightarrow> error + 'b) \<Rightarrow> error + 'b" where
  "bindE r f = (case r of Inl e \<Rightarrow> Inl e | Inr v \<Rightarrow> f v)"

record ZnModel =
  self_L :: int
  self_n :: int
  self_T :: real
  self_H :: real
  lattice :: "int list list"
  energy :: real
  magnetization :: int

subsection \<open>Array access\<close>

text \<open>
  \<open>a[i, j]\<close> on a two-dimensional numpy array: an index below \<open>- len\<close> or at least \<open>len\<close>
  raises IndexError, a negative index in between counts from the end.
\<close>

definition norm_index :: "nat \<Rightarrow> int \<Rightarrow> error + nat" where
  "norm_index len i =
     (if i < - int len \<or> int len \<le> i then Inl IndexError
      else Inr (nat (if i < 0 then i + int len else i)))"

definition getitem :: "int list list \<Rightarrow> int \<Rightarrow> int \<Rightarrow> error + int" where
  "getitem a i j =
     bindE (norm_index (length a) i) (\<lambda>r.
     bindE (norm_index (length (a ! r)) j) (\<lambda>c.
     Inr (a ! r ! c)))"

definition setitem :: "int list list \<Rightarrow> int \<Rightarrow> int \<Rightarrow> int \<Rightarrow> error + int list list" where
  "setitem a i j v =
     bindE (norm_index (length a) i) (\<lambda>r.
     bindE (norm_index (length (a ! r)) j) (\<lambda>c.
     Inr (a[r := (a ! r)[c := v]])))"

primrec getitems :: "int list list \<Rightarrow> (int \<times> int) list \<Rightarrow> error + int list" where
  "getitems a [] = Inr []"
| "getitems a (p # ps) =
     bindE (getitem a (fst p) (snd p)) (\<lambda>v.
     bindE (getitems a ps) (\<lambda>vs. Inr (v # vs)))"

subsection \<open>Energy and magnetization\<close>

text \<open>
  The four index pairs of the list \<open>neighbors\<close> in \<open>calculate_energy\<close>, in the order of
  the source. Python's \<open>%\<close> takes the sign of the divisor, as \<open>mod\<close> on \<open>int\<close> does.
\<close>

definition neighbor_indices :: "int \<Rightarrow> int \<Rightarrow> int \<Rightarrow> (int \<times> int) list" where
  "neighbor_indices l x y =
     [((x + 1) mod l, y), ((x - 1) mod l, y), (x, (y + 1) mod l), (x, (y - 1) mod l)]"

definition calculate_energy :: "ZnModel \<Rightarrow> int \<Rightarrow> int \<Rightarrow> error + real" where
  "calculate_energy m x y =
     bindE (getitem (lattice m) x y) (\<lambda>spin.
     if self_L m = 0 then Inl ZeroDivisionError
     else
       bindE (getitems (lattice m) (neighbor_indices (self_L m) x y)) (\<lambda>neighbors.
       let interaction_energy =
             - sum_list (map (\<lambda>neighbor. if spin = neighbor then 1 else 0) neighbors);
           field_energy = - self_H m * (if spin = 1 then 1 else - 1)
       in Inr (real_of_int interaction_energy + field_energy)))"

definition py_range :: "int \<Rightarrow> int list" where
  "py_range k = [0..k - 1]"

primrec energy_row :: "ZnModel \<Rightarrow> int \<Rightarrow> int list \<Rightarrow> real \<Rightarrow> error + real" where
  "energy_row m x [] total_energy = Inr total_energy"
| "energy_row m x (y # ys) total_energy =
     bindE (calculate_energy m x y) (\<lambda>e. energy_row m x ys (total_energy + e))"

primrec energy_rows :: "ZnModel \<Rightarrow> int list \<Rightarrow> real \<Rightarrow> error + real" where
  "energy_rows m [] total_energy = Inr total_energy"
| "energy_rows m (x # xs) total_energy =
     bindE (energy_row m x (py_range (self_L m)) total_energy) (energy_rows m xs)"

definition calculate_total_energy :: "ZnModel \<Rightarrow> error + real" where
  "calculate_total_energy m =
     bindE (energy_rows m (py_range (self_L m)) 0) (\<lambda>total_energy. Inr (total_energy / 2))"

definition calculate_magnetization :: "ZnModel \<Rightarrow> int" where
  "calculate_magnetization m =
     sum_list (map (\<lambda>spin. if spin = 1 then 1 else - 1) (concat (lattice m)))"

subsection \<open>Construction\<close>

text \<open>
  \<open>np.random.randint(low, high, (l, l))\<close>, with \<open>cells\<close> the array the generator returns
  when it returns one: a negative dimension raises ValueError, an empty shape gives the
  empty array before the bounds are looked at, and \<open>low \<ge> high\<close> raises ValueError.
  \<open>randint low high r\<close> is the scalar draw, \<open>r\<close> the value returned.
\<close>

definition randint_grid :: "int \<Rightarrow> int \<Rightarrow> int \<Rightarrow> int list list \<Rightarrow> error + int list list" where
  "randint_grid low high l cells =
     (if l < 0 then Inl ValueError
      else if l = 0 then Inr []
      else if low \<ge> high then Inl ValueError
      else Inr cells)"

definition randint :: "int \<Rightarrow> int \<Rightarrow> int \<Rightarrow> error + int" where
  "randint low high r = (if low \<ge> high then Inl ValueError else Inr r)"

text \<open>
  \<open>__init__\<close>. The two running scalars are set last; the record needs a value for them
  while the lattice is measured, and neither measurement reads them.
\<close>

definition init :: "int \<Rightarrow> int \<Rightarrow> real \<Rightarrow> real \<Rightarrow> int list list \<Rightarrow> error + ZnModel" where
  "init lattice_size n_states temperature external_field cells =
     bindE (randint_grid 0 n_states lattice_size cells) (\<lambda>lat.
     let m = \<lparr> self_L = lattice_size, self_n = n_states, self_T = temperature,
               self_H = external_field, lattice = lat, energy = 0, magnetization = 0 \<rparr>
     in bindE (calculate_total_energy m) (\<lambda>e.
        Inr (m\<lparr> energy := e, magnetization := calculate_magnetization m \<rparr>)))"

subsection \<open>The Metropolis pass\<close>

text \<open>
  The values the generator returns during one trial: the site, the offset of the proposal
  and the number \<open>rand_u\<close> that \<open>np.random.rand()\<close> returns if the trial asks for it.
\<close>

record draw =
  rand_x :: int
  rand_y :: int
  rand_delta :: int
  rand_u :: real

text \<open>
  The proposal of line 42: \<open>(self.lattice[x, y] + np.random.randint(1, self.n)) % self.n\<close>.
  The cell is a numpy \<open>int64\<close> scalar, so the sum is a 64-bit signed sum: \<open>wrap64 z\<close> is the
  value of \<open>z\<close> in two's complement on 64 bits (numpy warns and wraps). The remainder has
  the sign of the divisor, as \<open>mod\<close> has.
\<close>

definition wrap64 :: "int \<Rightarrow> int" where
  "wrap64 z = (z + 2 ^ 63) mod 2 ^ 64 - 2 ^ 63"

definition proposed_spin :: "int \<Rightarrow> int \<Rightarrow> int \<Rightarrow> int" where
  "proposed_spin spin delta n_states = wrap64 (spin + delta) mod n_states"

text \<open>
  One iteration of the loop of \<open>metropolis_step\<close>. The temperature is a numpy float: for
  \<open>T = 0\<close> and a positive \<open>delta_energy\<close> the quotient is minus infinity, its exponential is
  \<open>0\<close>, and the comparison \<open>rand() >= 0\<close> holds, so the move is reverted.
\<close>

definition trial :: "ZnModel \<Rightarrow> draw \<Rightarrow> error + ZnModel" where
  "trial m d =
     bindE (randint 0 (self_L m) (rand_x d)) (\<lambda>x.
     bindE (randint 0 (self_L m) (rand_y d)) (\<lambda>y.
     bindE (calculate_energy m x y) (\<lambda>current_energy.
     bindE (getitem (lattice m) x y) (\<lambda>spin.
     bindE (randint 1 (self_n m) (rand_delta d)) (\<lambda>delta.
     let new_spin = proposed_spin spin delta (self_n m) in
     bindE (getitem (lattice m) x y) (\<lambda>old_spin.
     bindE (setitem (lattice m) x y new_spin) (\<lambda>lat1.
     let m1 = m\<lparr> lattice := lat1 \<rparr> in
     bindE (calculate_energy m1 x y) (\<lambda>new_energy.
     let delta_energy = new_energy - current_energy in
     if delta_energy > 0 \<and> (self_T m = 0 \<or> rand_u d \<ge> exp (- delta_energy / self_T m))
     then bindE (setitem lat1 x y old_spin) (\<lambda>lat2. Inr (m1\<lparr> lattice := lat2 \<rparr>))
     else Inr (m1\<lparr> energy := energy m1 + delta_energy,
                     magnetization := magnetization m1
                       + ((if new_spin = 1 then 1 else - 1)
                          - (if old_spin = 1 then 1 else - 1)) \<rparr>)))))))))"

primrec run_trials :: "draw list \<Rightarrow> ZnModel \<Rightarrow> error + ZnModel" where
  "run_trials [] m = Inr m"
| "run_trials (d # ds) m = bindE (trial m d) (run_trials ds)"

definition metropolis_step :: "ZnModel \<Rightarrow> (nat \<Rightarrow> draw) \<Rightarrow> error + ZnModel" where
  "metropolis_step m rnd = run_trials (map rnd [0..<nat (self_L m * self_L m)]) m"

subsection \<open>The driver: one animation frame\<close>

text \<open>
  \<open>np.var\<close> of a non-empty sequence is the mean of the squared deviations from the mean
  (the population variance). The quotient of two numpy floats does not raise: a zero divisor
  gives an infinity or a nan, which the reals do not have, and is \<open>None\<close> here.
\<close>

definition np_mean :: "real list \<Rightarrow> real" where
  "np_mean xs = sum_list xs / real (length xs)"

definition np_var :: "real list \<Rightarrow> real" where
  "np_var xs = np_mean (map (\<lambda>x. (x - np_mean xs)\<^sup>2) xs)"

definition float_div :: "real \<Rightarrow> real \<Rightarrow> real option" where
  "float_div a b = (if b = 0 then None else Some (a / b))"

definition array_get :: "'a list \<Rightarrow> nat \<Rightarrow> error + 'a" where
  "array_get xs i = (if i < length xs then Inr (xs ! i) else Inl IndexError)"

text \<open>The module-level variables that \<open>update\<close> reads and writes.\<close>

record Simulation =
  zn_model :: ZnModel
  lattice_size :: int
  temperature_range :: "real list"
  energy_data :: "real list"
  magnetization_data :: "int list"
  specific_heat_data :: "real option list"
  susceptibility_data :: "real option list"

text \<open>
  \<open>update(frame)\<close> without the plotting calls; \<open>rnd\<close> gives the draws of the pass.
\<close>

definition update :: "nat \<Rightarrow> (nat \<Rightarrow> draw) \<Rightarrow> Simulation \<Rightarrow> error + Simulation" where
  "update frame rnd s =
     bindE (array_get (temperature_range s) frame) (\<lambda>t.
     bindE (metropolis_step ((zn_model s)\<lparr> self_T := t \<rparr>) rnd) (\<lambda>zm.
     let s1 = s\<lparr> zn_model := zm,
                  energy_data := energy_data s @ [energy zm],
                  magnetization_data := magnetization_data s @ [magnetization zm] \<rparr>
     in if length (energy_data s1) > 1
        then
          let specific_heat =
                float_div (np_var (energy_data s1))
                          (real_of_int ((lattice_size s1)\<^sup>2) * (self_T zm)\<^sup>2);
              s2 = s1\<lparr> specific_heat_data := specific_heat_data s1 @ [specific_heat] \<rparr>;
              susceptibility =
                float_div (np_var (map real_of_int (magnetization_data s2)))
                          (real_of_int ((lattice_size s2)\<^sup>2) * self_T zm)
          in Inr (s2\<lparr> susceptibility_data := susceptibility_data s2 @ [susceptibility] \<rparr>)
        else Inr s1))"

text \<open>The animation calls \<open>update\<close> once per frame, in order; \<open>rnd f\<close> are the draws of frame \<open>f\<close>.\<close>

primrec run_frames :: "nat list \<Rightarrow> (nat \<Rightarrow> nat \<Rightarrow> draw) \<Rightarrow> Simulation \<Rightarrow> error + Simulation" where
  "run_frames [] rnd s = Inr s"
| "run_frames (f # fs) rnd s = bindE (update f (rnd f) s) (run_frames fs rnd)"

section \<open>Vocabulary of the properties\<close>

text \<open>
  \<open>cell a i j\<close> is the entry of row \<open>i\<close>, column \<open>j\<close>, and \<open>upd a i j v\<close> the array with
  that entry replaced, for indices inside the array (where \<open>getitem\<close> and \<open>setitem\<close>
  return them). \<open>shape_ok l a\<close> says that \<open>a\<close> has \<open>l\<close> rows of \<open>l\<close> entries, and
  \<open>cells_in_range k a\<close> that every entry lies in \<open>[0, k)\<close>.
\<close>

definition cell :: "int list list \<Rightarrow> int \<Rightarrow> int \<Rightarrow> int" where
  "cell a i j = a ! nat i ! nat j"

definition upd :: "int list list \<Rightarrow> int \<Rightarrow> int \<Rightarrow> int \<Rightarrow> int list list" where
  "upd a i j v = a[nat i := (a ! nat i)[nat j := v]]"

definition shape_ok :: "int \<Rightarrow> int list list \<Rightarrow> bool" where
  "shape_ok l a \<longleftrightarrow> 0 \<le> l \<and> length a = nat l \<and> (\<forall>row \<in> set a. length row = nat l)"

definition cells_in_range :: "int \<Rightarrow> int list list \<Rightarrow> bool" where
  "cells_in_range k a \<longleftrightarrow> (\<forall>row \<in> set a. \<forall>v \<in> set row. 0 \<le> v \<and> v < k)"

text \<open>
  What the generator promises for the draws of one trial: \<open>randint(0, L, size=2)\<close> lies in
  \<open>[0, L)\<close>, \<open>randint(1, n)\<close> in \<open>[1, n)\<close> and \<open>rand()\<close> in \<open>[0, 1)\<close>.
\<close>

definition valid_draw :: "ZnModel \<Rightarrow> draw \<Rightarrow> bool" where
  "valid_draw m d \<longleftrightarrow>
     0 \<le> rand_x d \<and> rand_x d < self_L m \<and> 0 \<le> rand_y d \<and> rand_y d < self_L m \<and>
     1 \<le> rand_delta d \<and> rand_delta d < self_n m \<and> 0 \<le> rand_u d \<and> rand_u d < 1"

text \<open>The value \<open>calculate_energy\<close> returns at a site inside a well-shaped lattice.\<close>

definition site_energy :: "int \<Rightarrow> real \<Rightarrow> int list list \<Rightarrow> int \<Rightarrow> int \<Rightarrow> real" where
  "site_energy l h a x y =
     real_of_int (- sum_list (map (\<lambda>p. if cell a x y = cell a (fst p) (snd p) then 1 else 0)
                                  (neighbor_indices l x y)))
     + (- h * (if cell a x y = 1 then 1 else - 1))"

text \<open>The quantities of one trial, as the trial computes them.\<close>

definition proposal :: "ZnModel \<Rightarrow> draw \<Rightarrow> int" where
  "proposal m d =
     proposed_spin (cell (lattice m) (rand_x d) (rand_y d)) (rand_delta d) (self_n m)"

definition delta_energy_of :: "ZnModel \<Rightarrow> draw \<Rightarrow> real" where
  "delta_energy_of m d =
     site_energy (self_L m) (self_H m)
       (upd (lattice m) (rand_x d) (rand_y d) (proposal m d)) (rand_x d) (rand_y d)
     - site_energy (self_L m) (self_H m) (lattice m) (rand_x d) (rand_y d)"

definition rejected :: "ZnModel \<Rightarrow> draw \<Rightarrow> bool" where
  "rejected m d \<longleftrightarrow>
     delta_energy_of m d > 0 \<and>
     (self_T m = 0 \<or> rand_u d \<ge> exp (- delta_energy_of m d / self_T m))"

definition accepted_state :: "ZnModel \<Rightarrow> draw \<Rightarrow> ZnModel" where
  "accepted_state m d =
     m\<lparr> lattice := upd (lattice m) (rand_x d) (rand_y d) (proposal m d),
        energy := energy m + delta_energy_of m d,
        magnetization := magnetization m
          + ((if proposal m d = 1 then 1 else - 1)
             - (if cell (lattice m) (rand_x d) (rand_y d) = 1 then 1 else - 1)) \<rparr>"

text \<open>The number of cells that hold the reference state \<open>1\<close>.\<close>

definition count1 :: "int list list \<Rightarrow> int" where
  "count1 a = int (length (filter (\<lambda>v. v = 1) (concat a)))"


text \<open>
  For a lattice given as a function on the torus: the number of neighbours of a site that
  are in its state, in the order \<open>calculate_energy\<close> reads them, and the number of bonds
  between equal neighbours, each bond counted once (to the right and downwards).
\<close>

definition same_neighbors :: "int \<Rightarrow> (int \<Rightarrow> int \<Rightarrow> int) \<Rightarrow> int \<Rightarrow> int \<Rightarrow> int" where
  "same_neighbors l c x y =
     (if c x y = c ((x + 1) mod l) y then 1 else 0)
     + (if c x y = c ((x - 1) mod l) y then 1 else 0)
     + (if c x y = c x ((y + 1) mod l) then 1 else 0)
     + (if c x y = c x ((y - 1) mod l) then 1 else 0)"

definition bonds :: "int \<Rightarrow> (int \<Rightarrow> int \<Rightarrow> int) \<Rightarrow> int" where
  "bonds l c =
     (\<Sum>x \<in> {0..l - 1}. \<Sum>y \<in> {0..l - 1}.
        (if c x y = c ((x + 1) mod l) y then 1 else 0)
        + (if c x y = c x ((y + 1) mod l) then 1 else 0))"

section \<open>Basic facts\<close>

lemma bindE_Inr [simp]: "bindE (Inr v) f = f v"
  by (simp add: bindE_def)

lemma bindE_Inl [simp]: "bindE (Inl e) f = Inl e"
  by (simp add: bindE_def)

lemma norm_index_ok: "0 \<le> i \<Longrightarrow> i < int len \<Longrightarrow> norm_index len i = Inr (nat i)"
  by (simp add: norm_index_def)

lemma shape_ok_row: "shape_ok l a \<Longrightarrow> 0 \<le> i \<Longrightarrow> i < l \<Longrightarrow> length (a ! nat i) = nat l"
  by (simp add: shape_ok_def)

lemma getitem_ok:
  "shape_ok l a \<Longrightarrow> 0 \<le> i \<Longrightarrow> i < l \<Longrightarrow> 0 \<le> j \<Longrightarrow> j < l \<Longrightarrow> getitem a i j = Inr (cell a i j)"
  by (simp add: getitem_def norm_index_ok shape_ok_def cell_def)

lemma setitem_ok:
  "shape_ok l a \<Longrightarrow> 0 \<le> i \<Longrightarrow> i < l \<Longrightarrow> 0 \<le> j \<Longrightarrow> j < l \<Longrightarrow>
   setitem a i j v = Inr (a[nat i := (a ! nat i)[nat j := v]])"
  by (simp add: setitem_def norm_index_ok shape_ok_def)

lemma shape_ok_update:
  assumes "shape_ok l a" "0 \<le> i" "i < l"
  shows "shape_ok l (a[nat i := (a ! nat i)[nat j := v]])"
proof -
  have "length row = nat l" if "row \<in> set (a[nat i := (a ! nat i)[nat j := v]])" for row
  proof -
    from that have "row = (a ! nat i)[nat j := v] \<or> row \<in> set a"
      using set_update_subset_insert[of a "nat i" "(a ! nat i)[nat j := v]"] by blast
    then show ?thesis
      using assms shape_ok_row[OF assms] by (auto simp: shape_ok_def)
  qed
  then show ?thesis using assms by (simp add: shape_ok_def)
qed

lemma neighbor_indices_in_range:
  "0 < l \<Longrightarrow> 0 \<le> x \<Longrightarrow> x < l \<Longrightarrow> 0 \<le> y \<Longrightarrow> y < l \<Longrightarrow>
   \<forall>p \<in> set (neighbor_indices l x y). 0 \<le> fst p \<and> fst p < l \<and> 0 \<le> snd p \<and> snd p < l"
  by (simp add: neighbor_indices_def)

lemma getitems_ok:
  "shape_ok l a \<Longrightarrow> \<forall>p \<in> set ps. 0 \<le> fst p \<and> fst p < l \<and> 0 \<le> snd p \<and> snd p < l \<Longrightarrow>
   getitems a ps = Inr (map (\<lambda>p. cell a (fst p) (snd p)) ps)"
  by (induction ps) (simp_all add: getitem_ok)

lemma calculate_energy_ok:
  assumes "shape_ok (self_L m) (lattice m)" "0 \<le> x" "x < self_L m" "0 \<le> y" "y < self_L m"
  shows "calculate_energy m x y = Inr (site_energy (self_L m) (self_H m) (lattice m) x y)"
proof -
  have pos: "0 < self_L m" using assms by linarith
  have nb: "getitems (lattice m) (neighbor_indices (self_L m) x y)
            = Inr (map (\<lambda>p. cell (lattice m) (fst p) (snd p)) (neighbor_indices (self_L m) x y))"
    using getitems_ok[OF assms(1) neighbor_indices_in_range[OF pos assms(2-5)]] .
  show ?thesis
    using pos by (simp add: calculate_energy_def getitem_ok[OF assms] nb site_energy_def comp_def)
qed

lemma set_py_range: "set (py_range k) = {0..k - 1}"
  by (simp add: py_range_def)

lemma energy_row_ok:
  assumes "shape_ok (self_L m) (lattice m)" "0 \<le> x" "x < self_L m"
  shows "\<forall>y \<in> set ys. 0 \<le> y \<and> y < self_L m \<Longrightarrow>
         energy_row m x ys acc
         = Inr (acc + (\<Sum>y\<leftarrow>ys. site_energy (self_L m) (self_H m) (lattice m) x y))"
  by (induction ys arbitrary: acc) (simp_all add: calculate_energy_ok[OF assms] add.assoc)

lemma energy_rows_ok:
  assumes "shape_ok (self_L m) (lattice m)"
  shows "\<forall>x \<in> set xs. 0 \<le> x \<and> x < self_L m \<Longrightarrow>
         energy_rows m xs acc
         = Inr (acc + (\<Sum>x\<leftarrow>xs. \<Sum>y\<leftarrow>py_range (self_L m).
                          site_energy (self_L m) (self_H m) (lattice m) x y))"
proof (induction xs arbitrary: acc)
  case Nil
  then show ?case by simp
next
  case (Cons x xs)
  have row: "energy_row m x (py_range (self_L m)) acc
             = Inr (acc + (\<Sum>y\<leftarrow>py_range (self_L m).
                             site_energy (self_L m) (self_H m) (lattice m) x y))"
    using Cons.prems by (intro energy_row_ok[OF assms]) (simp_all add: set_py_range)
  show ?case using Cons by (simp add: row add.assoc)
qed

lemma calculate_total_energy_ok:
  assumes "shape_ok (self_L m) (lattice m)"
  shows "calculate_total_energy m
         = Inr ((\<Sum>x\<leftarrow>py_range (self_L m). \<Sum>y\<leftarrow>py_range (self_L m).
                   site_energy (self_L m) (self_H m) (lattice m) x y) / 2)"
  by (simp add: calculate_total_energy_def energy_rows_ok[OF assms] set_py_range)

lemma upd_revert:
  "shape_ok l a \<Longrightarrow> 0 \<le> i \<Longrightarrow> i < l \<Longrightarrow> upd (upd a i j v) i j (cell a i j) = a"
  by (simp add: upd_def cell_def shape_ok_def)

lemma trial_ok:
  assumes sh: "shape_ok (self_L m) (lattice m)" and vd: "valid_draw m d"
  shows "trial m d = Inr (if rejected m d then m else accepted_state m d)"
proof -
  let ?x = "rand_x d" and ?y = "rand_y d" and ?a = "lattice m"
  have x: "0 \<le> ?x" "?x < self_L m" and y: "0 \<le> ?y" "?y < self_L m"
    and n: "1 < self_n m" and l: "0 < self_L m"
    using vd by (auto simp: valid_draw_def)
  let ?new = "proposal m d"
  let ?m1 = "m\<lparr>lattice := upd ?a ?x ?y ?new\<rparr>"
  have sh1: "shape_ok (self_L ?m1) (lattice ?m1)"
    using shape_ok_update[OF sh x] by (simp add: upd_def)
  have e0: "calculate_energy m ?x ?y = Inr (site_energy (self_L m) (self_H m) ?a ?x ?y)"
    using calculate_energy_ok[OF sh x y] .
  have e1: "calculate_energy ?m1 ?x ?y
            = Inr (site_energy (self_L m) (self_H m) (upd ?a ?x ?y ?new) ?x ?y)"
    using calculate_energy_ok[OF sh1] x y by simp
  have g: "getitem ?a ?x ?y = Inr (cell ?a ?x ?y)"
    using getitem_ok[OF sh x y] .
  have s1: "setitem ?a ?x ?y v = Inr (upd ?a ?x ?y v)" for v
    using setitem_ok[OF sh x y] by (simp add: upd_def)
  have s2: "setitem (upd ?a ?x ?y ?new) ?x ?y (cell ?a ?x ?y) = Inr ?a"
    using setitem_ok[of "self_L m" "upd ?a ?x ?y ?new" ?x ?y "cell ?a ?x ?y"] sh1 x y
      upd_revert[OF sh x, of ?y ?new]
    by (simp add: upd_def)
  have r: "randint 0 (self_L m) v = Inr v" "randint 1 (self_n m) v = Inr v" for v
    using l n by (simp_all add: randint_def)
  show ?thesis
    unfolding trial_def r bindE_Inr e0 g Let_def
    unfolding proposal_def[symmetric] s1 bindE_Inr
    apply (simp only: e1 bindE_Inr ZnModel.simps)
    apply (fold delta_energy_of_def)
    apply (auto simp add: rejected_def accepted_state_def s2)
    done
qed

lemma py_range_1: "py_range 1 = [0]"
  by (simp add: py_range_def)

lemma py_range_2: "py_range 2 = [0, 1]"
  by (simp add: py_range_def upto_rec1)

lemma py_range_3: "py_range 3 = [0, 1, 2]"
  by (simp add: py_range_def upto_rec1)

lemmas eval_defs =
  calculate_total_energy_def calculate_energy_def calculate_magnetization_def
  getitem_def setitem_def norm_index_def neighbor_indices_def
  randint_def randint_grid_def init_def proposed_spin_def wrap64_def Let_def

section \<open>Properties of the program\<close>

subsection \<open>The checkerboard\<close>

text \<open>
  Claim C2, as stated: for \<open>L = 2\<close>, \<open>n = 2\<close>, \<open>H = 0\<close> and the lattice
  \<open>[[0, 1], [1, 0]]\<close>, \<open>calculate_total_energy()\<close> returns \<open>+4\<close>. It does not: every site
  has four neighbours in the other state, each pair contributes \<open>0\<close>, and the field term
  vanishes, so the sum is \<open>0\<close>.
\<close>

theorem checkerboard_energy_not_4:
  "calculate_total_energy \<lparr> self_L = 2, self_n = 2, self_T = 1, self_H = 0,
      lattice = [[0, 1], [1, 0]], energy = 0, magnetization = 0 \<rparr> \<noteq> Inr 4"
  by (simp add: eval_defs py_range_2)

text \<open>
  Claim C2, amended: for \<open>L = 2\<close>, \<open>n = 2\<close>, \<open>H = 0\<close> and the checkerboard lattice
  \<open>[[0, 1], [1, 0]]\<close>, \<open>calculate_total_energy()\<close> returns \<open>0\<close> and
  \<open>calculate_magnetization()\<close> returns \<open>0\<close>, whatever the temperature and the cached scalars.
\<close>

theorem checkerboard_values:
  "calculate_total_energy \<lparr> self_L = 2, self_n = 2, self_T = t, self_H = 0,
      lattice = [[0, 1], [1, 0]], energy = e, magnetization = mg \<rparr> = Inr 0
   \<and> calculate_magnetization \<lparr> self_L = 2, self_n = 2, self_T = t, self_H = 0,
      lattice = [[0, 1], [1, 0]], energy = e, magnetization = mg \<rparr> = 0"
  by (simp add: eval_defs py_range_2)

subsection \<open>The proposal\<close>

lemma wrap64_id: "- (2 ^ 63) \<le> z \<Longrightarrow> z < 2 ^ 63 \<Longrightarrow> wrap64 z = z"
  by (simp add: wrap64_def)

text \<open>
  Claim C8, as stated: for every \<open>n \<ge> 2\<close>, every \<open>old_state\<close> in \<open>[0, n)\<close> and every \<open>delta\<close>
  in \<open>{1, ..., n - 1}\<close> the proposal differs from \<open>old_state\<close>. It does not where the 64-bit
  sum wraps: with \<open>n = 2\<^sup>6\<^sup>3 - 1\<close> states (a count the constructor accepts), the cell
  \<open>2\<^sup>6\<^sup>3 - 2\<close> and the offset \<open>2\<close>, the sum wraps to \<open>- 2\<^sup>6\<^sup>3\<close>, whose remainder modulo \<open>n\<close> is
  the old state again.
\<close>

theorem proposed_spin_repeats_old_state:
  "(2::int) \<le> 2 ^ 63 - 1 \<and> (0::int) \<le> 2 ^ 63 - 2 \<and> (2 ^ 63 - 2 :: int) < 2 ^ 63 - 1
   \<and> (1::int) \<le> 2 \<and> (2::int) < 2 ^ 63 - 1
   \<and> proposed_spin (2 ^ 63 - 2) 2 (2 ^ 63 - 1) = 2 ^ 63 - 2"
  by (simp add: proposed_spin_def wrap64_def)

text \<open>
  Claim C8, amended: for every \<open>n\<close> with \<open>2 \<le> n \<le> 2\<^sup>6\<^sup>2\<close>, every \<open>old_state\<close> in \<open>[0, n)\<close> and
  every \<open>delta\<close> in \<open>{1, ..., n - 1}\<close>, the proposal \<open>(old_state + delta) mod n\<close> differs from
  \<open>old_state\<close> and lies in \<open>[0, n)\<close>. (Up to \<open>n = 2\<^sup>6\<^sup>2\<close> the sum of a cell and an offset stays
  below \<open>2\<^sup>6\<^sup>3\<close> and cannot wrap.)
\<close>

theorem proposed_spin_differs:
  assumes "2 \<le> n" "n \<le> 2 ^ 62" "0 \<le> old_state" "old_state < n" "1 \<le> delta" "delta < n"
  shows "proposed_spin old_state delta n \<noteq> old_state
   \<and> 0 \<le> proposed_spin old_state delta n \<and> proposed_spin old_state delta n < n"
proof -
  have "old_state + delta < 2 * n" using assms(4,6) by linarith
  also have "\<dots> \<le> 2 * 2 ^ 62" using assms(2) by linarith
  finally have small: "old_state + delta < 2 ^ 63" by simp
  have "- (2 ^ 63) \<le> old_state + delta"
  proof -
    have "(0::int) \<le> 2 ^ 63" by simp
    then show ?thesis using assms(3,5) by linarith
  qed
  then have w: "wrap64 (old_state + delta) = old_state + delta"
    using small by (rule wrap64_id)
  have neq: "(old_state + delta) mod n \<noteq> old_state"
  proof (cases "old_state + delta < n")
    case True
    have "(old_state + delta) mod n = old_state + delta"
      by (rule mod_pos_pos_trivial) (use assms True in linarith)+
    then show ?thesis using assms(5) by linarith
  next
    case False
    have "(old_state + delta) mod n = old_state + delta - n"
      by (rule int_mod_pos_eq[where q = 1]) (use assms False in linarith)+
    then show ?thesis using assms(6) by linarith
  qed
  have pos: "0 < n" using assms(1) by linarith
  have "0 \<le> (old_state + delta) mod n" "(old_state + delta) mod n < n"
    using pos by (rule pos_mod_sign, rule pos_mod_bound)
  with neq show ?thesis unfolding proposed_spin_def w by blast
qed

theorem proposed_spin_differs_witness:
  "(2::int) \<le> 3 \<and> (3::int) \<le> 2 ^ 62 \<and> (0::int) \<le> 2 \<and> (2::int) < 3 \<and> (1::int) \<le> 2
   \<and> proposed_spin 2 2 3 = 1 \<and> proposed_spin 2 2 3 \<noteq> 2
   \<and> (2::int) \<le> 2 ^ 62 \<and> (0::int) \<le> 2 ^ 62 - 1 \<and> (2 ^ 62 - 1 :: int) < 2 ^ 62
   \<and> (1::int) \<le> 2 ^ 62 - 1
   \<and> proposed_spin (2 ^ 62 - 1) (2 ^ 62 - 1) (2 ^ 62) \<noteq> 2 ^ 62 - 1"
proof -
  have a: "(2::int) \<le> 3" "(3::int) \<le> 2 ^ 62" "(0::int) \<le> 2" "(2::int) < 3" "(1::int) \<le> 2"
    by simp_all
  have b: "(2::int) \<le> 2 ^ 62" "(2 ^ 62 :: int) \<le> 2 ^ 62" "(0::int) \<le> 2 ^ 62 - 1"
    "(2 ^ 62 - 1 :: int) < 2 ^ 62" "(1::int) \<le> 2 ^ 62 - 1"
    by simp_all
  have v: "proposed_spin 2 2 3 = 1" by (simp add: proposed_spin_def wrap64_def)
  show ?thesis
    using proposed_spin_differs[OF a(1,2,3,4,5,4)] proposed_spin_differs[OF b(1,2,3,4,5,4)]
      a b v by simp
qed

subsection \<open>Construction\<close>

text \<open>
  Claim C3, as stated: constructing the engine with \<open>n < 2\<close> raises an error and creates no
  state. The constructor has no check: with \<open>L = 1\<close> and \<open>n = 1\<close> the generator can only
  return the lattice \<open>[[0]]\<close>, and construction returns a complete object.
\<close>

theorem init_accepts_one_state:
  "init 1 1 1 0 [[0]] = Inr \<lparr> self_L = 1, self_n = 1, self_T = 1, self_H = 0,
      lattice = [[0]], energy = - 2, magnetization = - 1 \<rparr>"
  by (simp add: eval_defs py_range_1)

lemma init_ok:
  assumes "1 \<le> l" "1 \<le> k" "shape_ok l cells"
  shows "init l k t h cells =
         Inr \<lparr> self_L = l, self_n = k, self_T = t, self_H = h, lattice = cells,
               energy = (\<Sum>x\<leftarrow>py_range l. \<Sum>y\<leftarrow>py_range l. site_energy l h cells x y) / 2,
               magnetization = (\<Sum>spin\<leftarrow>concat cells. if spin = 1 then 1 else - 1) \<rparr>"
proof -
  let ?m = "\<lparr> self_L = l, self_n = k, self_T = t, self_H = h, lattice = cells,
               energy = 0, magnetization = 0 \<rparr>"
  have g: "randint_grid 0 k l cells = Inr cells"
    using assms by (simp add: randint_grid_def)
  have sh: "shape_ok (self_L ?m) (lattice ?m)" using assms by simp
  show ?thesis
    unfolding init_def g bindE_Inr Let_def calculate_total_energy_ok[OF sh]
    by (simp add: calculate_magnetization_def)
qed

text \<open>
  Claim C3, amended: the constructor validates nothing itself and fails only where the
  draw of the lattice fails. For \<open>L < 0\<close>, and for \<open>L \<ge> 1\<close> with \<open>n \<le> 0\<close>, it raises the
  generator's ValueError and no object is returned. For \<open>L = 0\<close> it returns an object with
  the empty lattice, energy \<open>0\<close> and magnetization \<open>0\<close>. For \<open>L \<ge> 1\<close> and \<open>n \<ge> 1\<close> (so also for
  \<open>n = 1\<close>) it returns an object that holds the drawn lattice and whose two scalars are the
  full recomputations.
\<close>

theorem init_outcomes:
  "(l < 0 \<longrightarrow> init l k t h cells = Inl ValueError)
   \<and> (1 \<le> l \<and> k \<le> 0 \<longrightarrow> init l k t h cells = Inl ValueError)
   \<and> (l = 0 \<longrightarrow> init l k t h cells =
         Inr \<lparr> self_L = 0, self_n = k, self_T = t, self_H = h, lattice = [],
               energy = 0, magnetization = 0 \<rparr>)
   \<and> (1 \<le> l \<and> 1 \<le> k \<and> shape_ok l cells \<longrightarrow>
         (\<exists>m. init l k t h cells = Inr m \<and> lattice m = cells \<and> self_L m = l \<and> self_n m = k
              \<and> calculate_total_energy m = Inr (energy m)
              \<and> calculate_magnetization m = magnetization m))"
proof (intro conjI impI)
  assume "l < 0"
  then show "init l k t h cells = Inl ValueError"
    by (simp add: init_def randint_grid_def)
next
  assume "1 \<le> l \<and> k \<le> 0"
  then show "init l k t h cells = Inl ValueError"
    by (simp add: init_def randint_grid_def)
next
  assume "l = 0"
  then show "init l k t h cells =
         Inr \<lparr> self_L = 0, self_n = k, self_T = t, self_H = h, lattice = [],
               energy = 0, magnetization = 0 \<rparr>"
    by (simp add: init_def randint_grid_def calculate_total_energy_def py_range_def
        calculate_magnetization_def)
next
  assume a: "1 \<le> l \<and> 1 \<le> k \<and> shape_ok l cells"
  let ?m = "\<lparr> self_L = l, self_n = k, self_T = t, self_H = h, lattice = cells,
               energy = (\<Sum>x\<leftarrow>py_range l. \<Sum>y\<leftarrow>py_range l. site_energy l h cells x y) / 2,
               magnetization = (\<Sum>spin\<leftarrow>concat cells. if spin = 1 then 1 else - 1) \<rparr>"
  have i: "init l k t h cells = Inr ?m" using a init_ok by blast
  have sh: "shape_ok (self_L ?m) (lattice ?m)" using a by simp
  have "calculate_total_energy ?m = Inr (energy ?m)"
    using calculate_total_energy_ok[OF sh] by simp
  moreover have "calculate_magnetization ?m = magnetization ?m"
    by (simp add: calculate_magnetization_def)
  ultimately show "\<exists>m. init l k t h cells = Inr m \<and> lattice m = cells \<and> self_L m = l \<and> self_n m = k
              \<and> calculate_total_energy m = Inr (energy m)
              \<and> calculate_magnetization m = magnetization m"
    using i by (intro exI[of _ ?m]) simp
qed

theorem init_outcomes_witness:
  "init (- 1) 2 1 0 [] = Inl ValueError
   \<and> init 1 0 1 0 [] = Inl ValueError
   \<and> init 0 1 1 0 [] = Inr \<lparr> self_L = 0, self_n = 1, self_T = 1, self_H = 0, lattice = [],
               energy = 0, magnetization = 0 \<rparr>
   \<and> shape_ok 1 [[0]]
   \<and> (\<exists>m. init 1 1 1 0 [[0]] = Inr m \<and> lattice m = [[0]] \<and> self_L m = 1 \<and> self_n m = 1
              \<and> calculate_total_energy m = Inr (energy m)
              \<and> calculate_magnetization m = magnetization m)"
proof -
  have s: "shape_ok 1 [[0]]" by (simp add: shape_ok_def)
  show ?thesis
    using init_outcomes[of "- 1" 2 1 0 "[]"] init_outcomes[of 1 0 1 0 "[]"]
      init_outcomes[of 0 1 1 0 "[]"] init_outcomes[of 1 1 1 0 "[[0]]"] s
    by simp
qed

subsection \<open>The energy of a site and of the lattice\<close>

lemma site_energy_formula:
  "site_energy l h a x y =
     real_of_int (\<Sum>p\<leftarrow>[((x + 1) mod l, y), ((x - 1) mod l, y),
                        (x, (y + 1) mod l), (x, (y - 1) mod l)].
                    if cell a (fst p) (snd p) = cell a x y then - 1 else 0)
     + (if cell a x y = 1 then - h else h)"
proof -
  have "- (if c = (v::int) then 1 else 0) = (if v = c then - 1 else (0::int))" for c v
    by simp
  then show ?thesis
    by (simp add: site_energy_def neighbor_indices_def)
qed

lemma neighbor_indices_3:
  "neighbor_indices 3 0 0 = [(1, 0), (2, 0), (0, 1), (0, 2)]"
  by (simp add: neighbor_indices_def)

text \<open>The two loops over \<open>range(L)\<close> visit every pair of \<open>{0, ..., L - 1}\<close> once.\<close>

lemma grid_sum_list:
  "(\<Sum>x\<leftarrow>py_range l. \<Sum>y\<leftarrow>py_range l. f x y)
   = (\<Sum>x \<in> {0..l - 1}. \<Sum>y \<in> {0..l - 1}. (f x y :: real))"
  by (simp add: py_range_def sum_list_distinct_conv_sum_set)

text \<open>
  Claim C5: at every site \<open>(x, y)\<close> of the lattice, \<open>calculate_energy(x, y)\<close> is the sum over
  the four neighbours \<open>((x+1) mod L, y)\<close>, \<open>((x-1) mod L, y)\<close>, \<open>(x, (y+1) mod L)\<close>,
  \<open>(x, (y-1) mod L)\<close> of \<open>-1\<close> for a neighbour in the same state and \<open>0\<close> otherwise, plus \<open>-H\<close>
  if the state of the cell is \<open>1\<close> and \<open>+H\<close> otherwise; for \<open>L = 3\<close> the call at \<open>(0, 0)\<close> reads
  the neighbours \<open>(1,0)\<close>, \<open>(2,0)\<close>, \<open>(0,1)\<close>, \<open>(0,2)\<close>; and \<open>calculate_total_energy()\<close> is half the
  sum of \<open>calculate_energy\<close> over all \<open>L * L\<close> sites, the pairs \<open>(x, y)\<close> with \<open>x\<close> and \<open>y\<close> in
  \<open>{0, ..., L - 1}\<close>.
\<close>

theorem calculate_energy_formula:
  assumes "shape_ok (self_L m) (lattice m)"
  shows
   "(\<forall>x y. 0 \<le> x \<and> x < self_L m \<and> 0 \<le> y \<and> y < self_L m \<longrightarrow>
       calculate_energy m x y =
         Inr (real_of_int
                (\<Sum>p\<leftarrow>[((x + 1) mod self_L m, y), ((x - 1) mod self_L m, y),
                       (x, (y + 1) mod self_L m), (x, (y - 1) mod self_L m)].
                   if cell (lattice m) (fst p) (snd p) = cell (lattice m) x y then - 1 else 0)
              + (if cell (lattice m) x y = 1 then - self_H m else self_H m)))
    \<and> (self_L m = 3 \<longrightarrow>
         neighbor_indices (self_L m) 0 0 = [(1, 0), (2, 0), (0, 1), (0, 2)]
         \<and> getitems (lattice m) (neighbor_indices (self_L m) 0 0)
             = Inr [cell (lattice m) 1 0, cell (lattice m) 2 0,
                    cell (lattice m) 0 1, cell (lattice m) 0 2])
    \<and> (\<forall>e. (\<forall>x y. 0 \<le> x \<and> x < self_L m \<and> 0 \<le> y \<and> y < self_L m \<longrightarrow>
                  calculate_energy m x y = Inr (e x y)) \<longrightarrow>
            calculate_total_energy m =
              Inr ((\<Sum>x \<in> {0..self_L m - 1}. \<Sum>y \<in> {0..self_L m - 1}. e x y) / 2))"
proof (intro conjI allI impI)
  fix x y
  assume "0 \<le> x \<and> x < self_L m \<and> 0 \<le> y \<and> y < self_L m"
  then show "calculate_energy m x y =
         Inr (real_of_int
                (\<Sum>p\<leftarrow>[((x + 1) mod self_L m, y), ((x - 1) mod self_L m, y),
                       (x, (y + 1) mod self_L m), (x, (y - 1) mod self_L m)].
                   if cell (lattice m) (fst p) (snd p) = cell (lattice m) x y then - 1 else 0)
              + (if cell (lattice m) x y = 1 then - self_H m else self_H m))"
    using calculate_energy_ok[OF assms, of x y] by (simp only: site_energy_formula)
next
  assume "self_L m = 3"
  then show "neighbor_indices (self_L m) 0 0 = [(1, 0), (2, 0), (0, 1), (0, 2)]"
    by (simp only: neighbor_indices_3)
next
  assume l: "self_L m = 3"
  have "getitems (lattice m) [(1, 0), (2, 0), (0, 1), (0, 2)]
        = Inr (map (\<lambda>p. cell (lattice m) (fst p) (snd p)) [(1, 0), (2, 0), (0, 1), (0, 2)])"
    using assms l by (intro getitems_ok[of 3]) simp_all
  then show "getitems (lattice m) (neighbor_indices (self_L m) 0 0)
             = Inr [cell (lattice m) 1 0, cell (lattice m) 2 0,
                    cell (lattice m) 0 1, cell (lattice m) 0 2]"
    by (simp add: l neighbor_indices_3)
next
  fix e
  assume e: "\<forall>x y. 0 \<le> x \<and> x < self_L m \<and> 0 \<le> y \<and> y < self_L m \<longrightarrow>
                  calculate_energy m x y = Inr (e x y)"
  have eq: "site_energy (self_L m) (self_H m) (lattice m) x y = e x y"
    if "x \<in> set (py_range (self_L m))" "y \<in> set (py_range (self_L m))" for x y
  proof -
    have r: "0 \<le> x" "x < self_L m" "0 \<le> y" "y < self_L m"
      using that by (simp_all add: set_py_range)
    have "calculate_energy m x y = Inr (e x y)" using e r by blast
    then show ?thesis using calculate_energy_ok[OF assms r] by simp
  qed
  have "(\<Sum>x\<leftarrow>py_range (self_L m). \<Sum>y\<leftarrow>py_range (self_L m).
            site_energy (self_L m) (self_H m) (lattice m) x y)
        = (\<Sum>x\<leftarrow>py_range (self_L m). \<Sum>y\<leftarrow>py_range (self_L m). e x y)"
    by (intro arg_cong[where f = sum_list] map_cong refl) (simp add: eq)
  then show "calculate_total_energy m =
              Inr ((\<Sum>x \<in> {0..self_L m - 1}. \<Sum>y \<in> {0..self_L m - 1}. e x y) / 2)"
    using calculate_total_energy_ok[OF assms] by (simp add: grid_sum_list)
qed

theorem calculate_energy_formula_witness:
  "shape_ok 3 [[1, 0, 2], [1, 2, 2], [0, 1, 1]]
   \<and> calculate_energy \<lparr> self_L = 3, self_n = 3, self_T = 1, self_H = 1 / 2,
        lattice = [[1, 0, 2], [1, 2, 2], [0, 1, 1]], energy = 0, magnetization = 0 \<rparr> 0 0
      = Inr (- 3 / 2)
   \<and> getitems [[1, 0, 2], [1, 2, 2], [0, 1, 1]] (neighbor_indices 3 0 0) = Inr [1, 0, 0, 2]
   \<and> shape_ok 2 [[1, 0], [1, 1]]
   \<and> calculate_total_energy \<lparr> self_L = 2, self_n = 2, self_T = 1, self_H = 1 / 2,
        lattice = [[1, 0], [1, 1]], energy = 0, magnetization = 0 \<rparr>
      = Inr (- 9 / 2)"
proof -
  let ?m = "\<lparr> self_L = 3, self_n = 3, self_T = 1, self_H = 1 / 2,
        lattice = [[1, 0, 2], [1, 2, 2], [0, 1, 1]], energy = 0, magnetization = 0 \<rparr>"
  have s: "shape_ok (self_L ?m) (lattice ?m)" by (simp add: shape_ok_def)
  note t = calculate_energy_formula[OF s]
  have e: "calculate_energy ?m 0 0 = Inr (- 3 / 2)"
    using t[THEN conjunct1, rule_format, of 0 0] by (simp add: cell_def)
  have g: "getitems [[1, 0, 2], [1, 2, 2], [0, 1, 1]] (neighbor_indices 3 0 0) = Inr [1, 0, 0, 2]"
    using t[THEN conjunct2, THEN conjunct1] by (simp add: cell_def getitem_def norm_index_def)
  let ?k = "\<lparr> self_L = 2, self_n = 2, self_T = 1, self_H = 1 / 2,
        lattice = [[1, 0], [1, 1]], energy = 0, magnetization = 0 \<rparr>"
  let ?e = "site_energy 2 (1 / 2) [[1, 0], [1, 1]]"
  have sk: "shape_ok (self_L ?k) (lattice ?k)" by (simp add: shape_ok_def)
  have sites: "\<forall>x y. 0 \<le> x \<and> x < self_L ?k \<and> 0 \<le> y \<and> y < self_L ?k \<longrightarrow>
                  calculate_energy ?k x y = Inr (?e x y)"
  proof (intro allI impI)
    fix x y
    assume "0 \<le> x \<and> x < self_L ?k \<and> 0 \<le> y \<and> y < self_L ?k"
    then show "calculate_energy ?k x y = Inr (?e x y)"
      using calculate_energy_ok[OF sk, of x y] by simp
  qed
  have i: "{0..(1::int)} = {0, 1}" by auto
  have "calculate_total_energy ?k
        = Inr ((\<Sum>x \<in> {0..self_L ?k - 1}. \<Sum>y \<in> {0..self_L ?k - 1}. ?e x y) / 2)"
    using calculate_energy_formula[OF sk, THEN conjunct2, THEN conjunct2, THEN spec, THEN mp,
        OF sites] .
  then have tot: "calculate_total_energy ?k = Inr (- 9 / 2)"
    by (simp add: i site_energy_def cell_def neighbor_indices_def)
  show ?thesis using s e g sk tot by simp
qed

subsection \<open>The acceptance rule\<close>

lemma exp_minus_2_le_half: "exp (- 2 :: real) \<le> 1 / 2"
proof -
  have "1 + (2::real) \<le> exp 2" by (rule exp_ge_add_one_self)
  then have "(2::real) \<le> exp 2" by linarith
  then have "1 / exp (2::real) \<le> 1 / 2"
    by (intro divide_left_mono) simp_all
  then show ?thesis by (simp add: exp_minus inverse_eq_divide)
qed

text \<open>
  The values a trial computes, named as in the source: on a well-shaped lattice and for
  draws in range they are the results of the calls the trial makes.
\<close>

lemma trial_values:
  assumes sh: "shape_ok (self_L m) (lattice m)" and vd: "valid_draw m d"
  shows "calculate_energy m (rand_x d) (rand_y d)
           = Inr (site_energy (self_L m) (self_H m) (lattice m) (rand_x d) (rand_y d))"
    and "getitem (lattice m) (rand_x d) (rand_y d) = Inr (cell (lattice m) (rand_x d) (rand_y d))"
    and "setitem (lattice m) (rand_x d) (rand_y d) v = Inr (upd (lattice m) (rand_x d) (rand_y d) v)"
    and "calculate_energy (m\<lparr>lattice := upd (lattice m) (rand_x d) (rand_y d) v\<rparr>) (rand_x d) (rand_y d)
           = Inr (site_energy (self_L m) (self_H m) (upd (lattice m) (rand_x d) (rand_y d) v)
                    (rand_x d) (rand_y d))"
proof -
  have x: "0 \<le> rand_x d" "rand_x d < self_L m" and y: "0 \<le> rand_y d" "rand_y d < self_L m"
    using vd by (auto simp: valid_draw_def)
  show "calculate_energy m (rand_x d) (rand_y d)
           = Inr (site_energy (self_L m) (self_H m) (lattice m) (rand_x d) (rand_y d))"
    using calculate_energy_ok[OF sh x y] .
  show "getitem (lattice m) (rand_x d) (rand_y d) = Inr (cell (lattice m) (rand_x d) (rand_y d))"
    using getitem_ok[OF sh x y] .
  show "setitem (lattice m) (rand_x d) (rand_y d) v = Inr (upd (lattice m) (rand_x d) (rand_y d) v)"
    using setitem_ok[OF sh x y] by (simp add: upd_def)
  let ?m1 = "m\<lparr>lattice := upd (lattice m) (rand_x d) (rand_y d) v\<rparr>"
  have sh1: "shape_ok (self_L ?m1) (lattice ?m1)"
    using shape_ok_update[OF sh x] by (simp add: upd_def)
  show "calculate_energy ?m1 (rand_x d) (rand_y d)
           = Inr (site_energy (self_L m) (self_H m) (upd (lattice m) (rand_x d) (rand_y d) v)
                    (rand_x d) (rand_y d))"
    using calculate_energy_ok[OF sh1] x y by simp
qed

lemma cell_upd_same:
  "shape_ok l a \<Longrightarrow> 0 \<le> i \<Longrightarrow> i < l \<Longrightarrow> 0 \<le> j \<Longrightarrow> j < l \<Longrightarrow> cell (upd a i j v) i j = v"
  by (simp add: cell_def upd_def shape_ok_def)

lemma accepted_state_neq:
  assumes "delta_energy_of m d > 0"
  shows "accepted_state m d \<noteq> m"
proof
  assume "accepted_state m d = m"
  then have "energy (accepted_state m d) = energy m" by simp
  then show False using assms by (simp add: accepted_state_def)
qed

text \<open>
  The hypotheses of the next two theorems name the values a trial computes, as the source
  names them; this lemma identifies them with the vocabulary above.
\<close>

lemma trial_named_values:
  assumes sh: "shape_ok (self_L m) (lattice m)" and vd: "valid_draw m d"
    and ce: "calculate_energy m (rand_x d) (rand_y d) = Inr current_energy"
    and os: "getitem (lattice m) (rand_x d) (rand_y d) = Inr old_spin"
    and ns: "new_spin = proposed_spin old_spin (rand_delta d) (self_n m)"
    and l1: "setitem (lattice m) (rand_x d) (rand_y d) new_spin = Inr lat1"
    and ne: "calculate_energy (m\<lparr>lattice := lat1\<rparr>) (rand_x d) (rand_y d) = Inr new_energy"
  shows "old_spin = cell (lattice m) (rand_x d) (rand_y d)"
    and "new_spin = proposal m d"
    and "lat1 = upd (lattice m) (rand_x d) (rand_y d) (proposal m d)"
    and "new_energy - current_energy = delta_energy_of m d"
proof -
  note tv = trial_values[OF sh vd]
  show o: "old_spin = cell (lattice m) (rand_x d) (rand_y d)"
    using os tv(2) by simp
  show n: "new_spin = proposal m d"
    using ns o by (simp add: proposal_def)
  show l: "lat1 = upd (lattice m) (rand_x d) (rand_y d) (proposal m d)"
    using l1 tv(3)[of new_spin] n by simp
  have "current_energy = site_energy (self_L m) (self_H m) (lattice m) (rand_x d) (rand_y d)"
    using ce tv(1) by simp
  moreover have "new_energy = site_energy (self_L m) (self_H m)
       (upd (lattice m) (rand_x d) (rand_y d) (proposal m d)) (rand_x d) (rand_y d)"
    using ne tv(4)[of "proposal m d"] l by simp
  ultimately show "new_energy - current_energy = delta_energy_of m d"
    by (simp add: delta_energy_of_def)
qed

text \<open>
  Claim C4: in a trial with \<open>T > 0\<close>, a \<open>delta_energy \<le> 0\<close> accepts the proposal whatever the
  acceptance draw is; for \<open>delta_energy > 0\<close> the move is accepted if and only if the draw
  \<open>u\<close> is below \<open>exp (- delta_energy / T)\<close>, and otherwise the cell is set back to
  \<open>old_state\<close>. The hypotheses name the values the trial computes: the two calls of
  \<open>calculate_energy\<close>, the read of the cell and the tentative write.
\<close>

theorem metropolis_acceptance:
  assumes sh: "shape_ok (self_L m) (lattice m)" and vd: "valid_draw m d" and t: "0 < self_T m"
    and ce: "calculate_energy m (rand_x d) (rand_y d) = Inr current_energy"
    and os: "getitem (lattice m) (rand_x d) (rand_y d) = Inr old_spin"
    and ns: "new_spin = proposed_spin old_spin (rand_delta d) (self_n m)"
    and l1: "setitem (lattice m) (rand_x d) (rand_y d) new_spin = Inr lat1"
    and ne: "calculate_energy (m\<lparr>lattice := lat1\<rparr>) (rand_x d) (rand_y d) = Inr new_energy"
    and de: "delta_energy = new_energy - current_energy"
    and ac: "accepted = m\<lparr> lattice := lat1, energy := energy m + delta_energy,
                          magnetization := magnetization m
                            + ((if new_spin = 1 then 1 else - 1)
                               - (if old_spin = 1 then 1 else - 1)) \<rparr>"
  shows "(delta_energy \<le> 0 \<longrightarrow>
            (\<forall>u. 0 \<le> u \<and> u < 1 \<longrightarrow> trial m (d\<lparr>rand_u := u\<rparr>) = Inr accepted))
       \<and> (delta_energy > 0 \<longrightarrow>
            (trial m d = Inr accepted \<longleftrightarrow> rand_u d < exp (- delta_energy / self_T m))
            \<and> (\<not> rand_u d < exp (- delta_energy / self_T m) \<longrightarrow>
                 (\<exists>m'. trial m d = Inr m'
                    \<and> getitem (lattice m') (rand_x d) (rand_y d) = Inr old_spin)))"
proof -
  note nv = trial_named_values[OF sh vd ce os ns l1 ne]
  have dd: "delta_energy = delta_energy_of m d" using de nv(4) by simp
  have acc: "accepted = accepted_state m d"
    unfolding ac accepted_state_def dd nv(1) nv(2) nv(3) ..
  have tr: "trial m d = Inr (if rejected m d then m else accepted_state m d)"
    using trial_ok[OF sh vd] .
  have rj: "rejected m d \<longleftrightarrow> delta_energy > 0 \<and> \<not> rand_u d < exp (- delta_energy / self_T m)"
    using t by (auto simp: rejected_def dd)
  have a: "trial m (d\<lparr>rand_u := u\<rparr>) = Inr accepted"
    if "delta_energy \<le> 0" "0 \<le> u \<and> u < 1" for u
  proof -
    let ?d = "d\<lparr>rand_u := u\<rparr>"
    have vd': "valid_draw m ?d" using vd that(2) by (simp add: valid_draw_def)
    have p: "proposal m ?d = proposal m d" by (simp add: proposal_def)
    have e: "delta_energy_of m ?d = delta_energy_of m d" by (simp add: delta_energy_of_def p)
    have "\<not> rejected m ?d" using that(1) by (simp add: rejected_def e dd[symmetric])
    moreover have "accepted_state m ?d = accepted_state m d"
      by (simp add: accepted_state_def p e)
    ultimately show ?thesis using trial_ok[OF sh vd'] acc by simp
  qed
  have b: "trial m d = Inr accepted \<longleftrightarrow> rand_u d < exp (- delta_energy / self_T m)"
    if "delta_energy > 0"
    using tr rj that accepted_state_neq[of m d] acc dd by auto
  have c: "\<exists>m'. trial m d = Inr m' \<and> getitem (lattice m') (rand_x d) (rand_y d) = Inr old_spin"
    if "delta_energy > 0" "\<not> rand_u d < exp (- delta_energy / self_T m)"
    using tr rj that os by auto
  show ?thesis using a b c by blast
qed

subsection \<open>Rejected trials\<close>

text \<open>
  Claim C7: a rejected trial leaves the object as it was: the cell \<open>(x, y)\<close> holds its old
  value, no other cell has changed, and \<open>energy\<close> and \<open>magnetization\<close> are the values from
  before the trial. A trial is rejected when its \<open>delta_energy\<close> is positive and the
  acceptance draw is not below the acceptance probability (for a temperature of \<open>0\<close>
  that probability is \<open>0\<close>).
\<close>

theorem rejected_trial_restores:
  assumes sh: "shape_ok (self_L m) (lattice m)" and vd: "valid_draw m d"
    and ce: "calculate_energy m (rand_x d) (rand_y d) = Inr current_energy"
    and os: "getitem (lattice m) (rand_x d) (rand_y d) = Inr old_spin"
    and ns: "new_spin = proposed_spin old_spin (rand_delta d) (self_n m)"
    and l1: "setitem (lattice m) (rand_x d) (rand_y d) new_spin = Inr lat1"
    and ne: "calculate_energy (m\<lparr>lattice := lat1\<rparr>) (rand_x d) (rand_y d) = Inr new_energy"
    and de: "delta_energy = new_energy - current_energy"
    and rj: "delta_energy > 0"
            "self_T m = 0 \<or> rand_u d \<ge> exp (- delta_energy / self_T m)"
  shows "\<exists>m'. trial m d = Inr m'
           \<and> getitem (lattice m') (rand_x d) (rand_y d) = Inr old_spin
           \<and> lattice m' = lattice m
           \<and> energy m' = energy m \<and> magnetization m' = magnetization m"
proof -
  note nv = trial_named_values[OF sh vd ce os ns l1 ne]
  have "rejected m d" using rj de nv(4) by (simp add: rejected_def)
  then have "trial m d = Inr m" using trial_ok[OF sh vd] by simp
  then show ?thesis using os by simp
qed

subsection \<open>The two theorems on a one-cell lattice with field 1\<close>

theorem rejected_trial_restores_witness:
  "\<exists>m'. trial \<lparr> self_L = 1, self_n = 2, self_T = 1, self_H = 1, lattice = [[1]],
                  energy = - 5 / 2, magnetization = 1 \<rparr>
                \<lparr> rand_x = 0, rand_y = 0, rand_delta = 1, rand_u = 1 / 2 \<rparr> = Inr m'
         \<and> getitem (lattice m') 0 0 = Inr 1 \<and> lattice m' = [[1]]
         \<and> energy m' = - 5 / 2 \<and> magnetization m' = 1"
proof -
  let ?d = "\<lparr> rand_x = 0, rand_y = 0, rand_delta = 1, rand_u = 1 / 2 \<rparr>"
  let ?r = "\<lparr> self_L = 1, self_n = 2, self_T = 1, self_H = 1, lattice = [[1]],
              energy = - 5 / 2, magnetization = 1 \<rparr>"
  have h1: "shape_ok (self_L ?r) (lattice ?r)" by (simp add: shape_ok_def)
  have h2: "valid_draw ?r ?d" by (simp add: valid_draw_def)
  have h3: "calculate_energy ?r (rand_x ?d) (rand_y ?d) = Inr (- 5)" by (simp add: eval_defs)
  have h4: "getitem (lattice ?r) (rand_x ?d) (rand_y ?d) = Inr 1" by (simp add: eval_defs)
  have h5: "0 = proposed_spin 1 (rand_delta ?d) (self_n ?r)" by (simp add: eval_defs)
  have h6: "setitem (lattice ?r) (rand_x ?d) (rand_y ?d) 0 = Inr [[0]]" by (simp add: eval_defs)
  have h7: "calculate_energy (?r\<lparr>lattice := [[0]]\<rparr>) (rand_x ?d) (rand_y ?d) = Inr (- 3)"
    by (simp add: eval_defs)
  have h8: "(2::real) = - 3 - (- 5)" by simp
  have h9: "(2::real) > 0" by simp
  have h10: "self_T ?r = 0 \<or> rand_u ?d \<ge> exp (- 2 / self_T ?r)"
    using exp_minus_2_le_half by simp
  from rejected_trial_restores[OF h1 h2 h3 h4 h5 h6 h7 h8 h9 h10]
  show ?thesis by simp
qed

theorem metropolis_acceptance_witness:
  "(\<exists>m'. trial \<lparr> self_L = 1, self_n = 2, self_T = 1, self_H = 1, lattice = [[1]],
                  energy = - 5 / 2, magnetization = 1 \<rparr>
                \<lparr> rand_x = 0, rand_y = 0, rand_delta = 1, rand_u = 1 / 2 \<rparr> = Inr m'
         \<and> getitem (lattice m') 0 0 = Inr 1)
   \<and> trial \<lparr> self_L = 1, self_n = 2, self_T = 1, self_H = 1, lattice = [[0]],
              energy = - 3 / 2, magnetization = - 1 \<rparr>
            \<lparr> rand_x = 0, rand_y = 0, rand_delta = 1, rand_u = 1 / 2 \<rparr>
       = Inr \<lparr> self_L = 1, self_n = 2, self_T = 1, self_H = 1, lattice = [[1]],
               energy = - 7 / 2, magnetization = 1 \<rparr>"
proof -
  let ?d = "\<lparr> rand_x = 0, rand_y = 0, rand_delta = 1, rand_u = 1 / 2 \<rparr>"
  let ?r = "\<lparr> self_L = 1, self_n = 2, self_T = 1, self_H = 1, lattice = [[1]],
              energy = - 5 / 2, magnetization = 1 \<rparr>"
  let ?a = "\<lparr> self_L = 1, self_n = 2, self_T = 1, self_H = 1, lattice = [[0]],
              energy = - 3 / 2, magnetization = - 1 \<rparr>"
  have v: "valid_draw ?r ?d" "valid_draw ?a ?d" by (simp_all add: valid_draw_def)
  have r1: "shape_ok (self_L ?r) (lattice ?r)" by (simp add: shape_ok_def)
  have r2: "0 < self_T ?r" by simp
  have r3: "calculate_energy ?r (rand_x ?d) (rand_y ?d) = Inr (- 5)" by (simp add: eval_defs)
  have r4: "getitem (lattice ?r) (rand_x ?d) (rand_y ?d) = Inr 1" by (simp add: eval_defs)
  have r5: "0 = proposed_spin 1 (rand_delta ?d) (self_n ?r)" by (simp add: eval_defs)
  have r6: "setitem (lattice ?r) (rand_x ?d) (rand_y ?d) 0 = Inr [[0]]" by (simp add: eval_defs)
  have r7: "calculate_energy (?r\<lparr>lattice := [[0]]\<rparr>) (rand_x ?d) (rand_y ?d) = Inr (- 3)"
    by (simp add: eval_defs)
  have r8: "(2::real) = - 3 - (- 5)" by simp
  have u: "\<not> rand_u ?d < exp (- 2 / self_T ?r)" using exp_minus_2_le_half by simp
  have p: "(2::real) > 0" by simp
  note t = metropolis_acceptance[OF r1 v(1) r2 r3 r4 r5 r6 r7 r8 refl]
  have r: "\<exists>m'. trial ?r ?d = Inr m' \<and> getitem (lattice m') (rand_x ?d) (rand_y ?d) = Inr 1"
    using t[THEN conjunct2, rule_format, OF p, THEN conjunct2, rule_format, OF u] .
  have a1: "shape_ok (self_L ?a) (lattice ?a)" by (simp add: shape_ok_def)
  have a2: "0 < self_T ?a" by simp
  have a3: "calculate_energy ?a (rand_x ?d) (rand_y ?d) = Inr (- 3)" by (simp add: eval_defs)
  have a4: "getitem (lattice ?a) (rand_x ?d) (rand_y ?d) = Inr 0" by (simp add: eval_defs)
  have a5: "1 = proposed_spin 0 (rand_delta ?d) (self_n ?a)" by (simp add: eval_defs)
  have a6: "setitem (lattice ?a) (rand_x ?d) (rand_y ?d) 1 = Inr [[1]]" by (simp add: eval_defs)
  have a7: "calculate_energy (?a\<lparr>lattice := [[1]]\<rparr>) (rand_x ?d) (rand_y ?d) = Inr (- 5)"
    by (simp add: eval_defs)
  have a8: "(- 2::real) = - 5 - (- 3)" by simp
  have "trial ?a (?d\<lparr>rand_u := 1 / 2\<rparr>)
        = Inr (?a\<lparr> lattice := [[1]], energy := energy ?a + (- 2),
                    magnetization := magnetization ?a
                      + ((if (1::int) = 1 then 1 else - 1) - (if (0::int) = 1 then 1 else - 1)) \<rparr>)"
    using metropolis_acceptance[OF a1 v(2) a2 a3 a4 a5 a6 a7 a8 refl] by simp
  then have a: "trial ?a ?d = Inr \<lparr> self_L = 1, self_n = 2, self_T = 1, self_H = 1,
                 lattice = [[1]], energy = - 7 / 2, magnetization = 1 \<rparr>"
    by simp
  show ?thesis using r a by simp
qed

subsection \<open>Cells stay in range, indices stay in bounds\<close>

lemma cells_in_range_upd:
  assumes "cells_in_range k a" "0 \<le> v" "v < k"
  shows "cells_in_range k (upd a i j v)"
proof -
  have "0 \<le> w \<and> w < k"
    if "row \<in> set (upd a i j v)" "w \<in> set row" for row w
  proof -
    from that(1) have "row = (a ! nat i)[nat j := v] \<or> row \<in> set a"
      using set_update_subset_insert[of a "nat i" "(a ! nat i)[nat j := v]"]
      by (auto simp: upd_def)
    then show ?thesis
    proof
      assume r: "row = (a ! nat i)[nat j := v]"
      show ?thesis
      proof (cases "nat i < length a")
        case True
        then have "a ! nat i \<in> set a" by simp
        moreover have "w = v \<or> w \<in> set (a ! nat i)"
          using that(2) r set_update_subset_insert[of "a ! nat i" "nat j" v] by auto
        ultimately show ?thesis using assms by (auto simp: cells_in_range_def)
      next
        case False
        then have "upd a i j v = a" by (simp add: upd_def list_update_beyond)
        then show ?thesis using that assms(1) by (auto simp: cells_in_range_def)
      qed
    next
      assume "row \<in> set a"
      then show ?thesis using that(2) assms(1) by (auto simp: cells_in_range_def)
    qed
  qed
  then show ?thesis unfolding cells_in_range_def by blast
qed

lemma proposal_in_range:
  "valid_draw m d \<Longrightarrow> 0 \<le> proposal m d \<and> proposal m d < self_n m"
  by (simp add: valid_draw_def proposal_def proposed_spin_def)

lemma trial_preserves:
  assumes sh: "shape_ok (self_L m) (lattice m)" and vd: "valid_draw m d"
  shows "\<exists>m'. trial m d = Inr m' \<and> self_L m' = self_L m \<and> self_n m' = self_n m
           \<and> self_T m' = self_T m \<and> self_H m' = self_H m
           \<and> shape_ok (self_L m') (lattice m')
           \<and> (cells_in_range (self_n m) (lattice m) \<longrightarrow> cells_in_range (self_n m') (lattice m'))"
proof (cases "rejected m d")
  case True
  then have "trial m d = Inr m" using trial_ok[OF sh vd] by simp
  then show ?thesis using sh by simp
next
  case False
  have x: "0 \<le> rand_x d" "rand_x d < self_L m"
    using vd by (auto simp: valid_draw_def)
  have t: "trial m d = Inr (accepted_state m d)" using False trial_ok[OF sh vd] by simp
  have "shape_ok (self_L m) (upd (lattice m) (rand_x d) (rand_y d) (proposal m d))"
    using shape_ok_update[OF sh x] by (simp add: upd_def)
  moreover have "cells_in_range (self_n m) (lattice m) \<longrightarrow>
     cells_in_range (self_n m) (upd (lattice m) (rand_x d) (rand_y d) (proposal m d))"
    using cells_in_range_upd proposal_in_range[OF vd] by blast
  ultimately show ?thesis using t by (simp add: accepted_state_def)
qed





subsection \<open>The magnetization counts the cells in state 1\<close>

lemma spin_sum_count:
  "(\<Sum>spin\<leftarrow>xs. if spin = (1::int) then 1 else - 1)
   = 2 * int (length (filter (\<lambda>v. v = 1) xs)) - int (length xs)"
  by (induction xs) simp_all

lemma length_concat_shape:
  "\<forall>row \<in> set a. length row = k \<Longrightarrow> length (concat a) = length a * k"
  by (induction a) simp_all

lemma calculate_magnetization_count:
  assumes "shape_ok l a"
  shows "(\<Sum>spin\<leftarrow>concat a. if spin = (1::int) then 1 else - 1) = 2 * count1 a - l * l"
proof -
  have "length (concat a) = nat l * nat l"
    using assms length_concat_shape[of a "nat l"] by (simp add: shape_ok_def)
  moreover have "int (nat l * nat l) = l * l" using assms by (simp add: shape_ok_def)
  ultimately show ?thesis by (simp add: spin_sum_count count1_def)
qed

lemma count_row_update:
  "j < length row \<Longrightarrow>
   int (length (filter (\<lambda>v. v = (1::int)) (row[j := v])))
   = int (length (filter (\<lambda>v. v = 1) row)) - (if row ! j = 1 then 1 else 0)
     + (if v = 1 then 1 else 0)"
proof (induction row arbitrary: j)
  case Nil
  then show ?case by simp
next
  case (Cons w row)
  show ?case
  proof (cases j)
    case 0
    then show ?thesis by simp
  next
    case (Suc k)
    then have "k < length row" using Cons.prems by simp
    from Cons.IH[OF this] Suc show ?thesis by (simp split: if_splits)
  qed
qed

lemma count_rows_update:
  "i < length a \<Longrightarrow>
   int (length (filter (\<lambda>v. v = (1::int)) (concat (a[i := r]))))
   = int (length (filter (\<lambda>v. v = 1) (concat a)))
     - int (length (filter (\<lambda>v. v = 1) (a ! i))) + int (length (filter (\<lambda>v. v = 1) r))"
proof (induction a arbitrary: i)
  case Nil
  then show ?case by simp
next
  case (Cons w a)
  show ?case
  proof (cases i)
    case 0
    then show ?thesis by simp
  next
    case (Suc k)
    then have "k < length a" using Cons.prems by simp
    from Cons.IH[OF this] Suc show ?thesis by simp
  qed
qed

lemma count1_upd:
  assumes "shape_ok l a" "0 \<le> i" "i < l" "0 \<le> j" "j < l"
  shows "count1 (upd a i j v)
         = count1 a - (if cell a i j = 1 then 1 else 0) + (if v = 1 then 1 else 0)"
proof -
  have i: "nat i < length a" using assms by (simp add: shape_ok_def)
  have j: "nat j < length (a ! nat i)" using assms by (simp add: shape_ok_def)
  show ?thesis
    unfolding count1_def upd_def cell_def
    by (simp only: count_rows_update[OF i] count_row_update[OF j])
qed

lemma count1_bounds:
  assumes "shape_ok l a"
  shows "0 \<le> count1 a \<and> count1 a \<le> l * l"
proof -
  have "length (concat a) = nat l * nat l"
    using assms length_concat_shape[of a "nat l"] by (simp add: shape_ok_def)
  moreover have "int (nat l * nat l) = l * l" using assms by (simp add: shape_ok_def)
  moreover have "length (filter (\<lambda>v. v = 1) (concat a)) \<le> length (concat a)"
    by (rule length_filter_le)
  ultimately show ?thesis unfolding count1_def by linarith
qed

lemma trial_magnetization:
  assumes sh: "shape_ok (self_L m) (lattice m)" and vd: "valid_draw m d"
    and mg: "magnetization m = 2 * count1 (lattice m) - self_L m * self_L m"
  shows "\<exists>m'. trial m d = Inr m'
           \<and> magnetization m' = 2 * count1 (lattice m') - self_L m' * self_L m'
           \<and> (magnetization m' - magnetization m = - 2 \<or> magnetization m' = magnetization m
                \<or> magnetization m' - magnetization m = 2)"
proof (cases "rejected m d")
  case True
  then have "trial m d = Inr m" using trial_ok[OF sh vd] by simp
  then show ?thesis using mg by simp
next
  case False
  have r: "0 \<le> rand_x d" "rand_x d < self_L m" "0 \<le> rand_y d" "rand_y d < self_L m"
    using vd by (auto simp: valid_draw_def)
  have t: "trial m d = Inr (accepted_state m d)" using False trial_ok[OF sh vd] by simp
  have c: "count1 (lattice (accepted_state m d))
           = count1 (lattice m) - (if cell (lattice m) (rand_x d) (rand_y d) = 1 then 1 else 0)
             + (if proposal m d = 1 then 1 else 0)"
    using count1_upd[OF sh r] by (simp add: accepted_state_def)
  have a: "magnetization (accepted_state m d)
           = magnetization m + ((if proposal m d = 1 then 1 else - 1)
               - (if cell (lattice m) (rand_x d) (rand_y d) = 1 then 1 else - 1))"
    and l: "self_L (accepted_state m d) = self_L m"
    by (simp_all add: accepted_state_def)
  have "magnetization (accepted_state m d)
          = 2 * count1 (lattice (accepted_state m d))
            - self_L (accepted_state m d) * self_L (accepted_state m d)"
    unfolding a c l mg by (simp split: if_splits)
  moreover have "magnetization (accepted_state m d) - magnetization m = - 2
       \<or> magnetization (accepted_state m d) = magnetization m
       \<or> magnetization (accepted_state m d) - magnetization m = 2"
    unfolding a by (simp split: if_splits)
  ultimately show ?thesis using t by blast
qed

lemma run_trials_magnetization:
  assumes "shape_ok (self_L m) (lattice m)" "\<forall>d \<in> set ds. valid_draw m d"
    and "magnetization m = 2 * count1 (lattice m) - self_L m * self_L m"
  shows "\<exists>m'. run_trials ds m = Inr m'
           \<and> magnetization m' = 2 * count1 (lattice m') - self_L m' * self_L m'"
  using assms
proof (induction ds arbitrary: m)
  case Nil
  then show ?case by simp
next
  case (Cons d ds)
  from Cons.prems have vd: "valid_draw m d" by simp
  from trial_preserves[OF Cons.prems(1) vd] trial_magnetization[OF Cons.prems(1) vd Cons.prems(3)]
  obtain m1 where
    m1: "trial m d = Inr m1" "self_L m1 = self_L m" "self_n m1 = self_n m"
      "shape_ok (self_L m1) (lattice m1)"
      "magnetization m1 = 2 * count1 (lattice m1) - self_L m1 * self_L m1"
    by auto
  have "\<forall>d \<in> set ds. valid_draw m1 d"
    using Cons.prems(2) m1(2,3) by (simp add: valid_draw_def)
  from Cons.IH[OF m1(4) this m1(5)] m1(1) show ?case by simp
qed

text \<open>
  Claim C10: after construction and after every trial (hence after every pass) the tracked
  magnetization is exactly \<open>2 * (number of cells in state 1) - L\<^sup>2\<close>; it therefore lies in
  \<open>[- L\<^sup>2, L\<^sup>2]\<close> and has the parity of \<open>L\<^sup>2\<close>, and a single trial changes it by \<open>-2\<close>, \<open>0\<close>
  or \<open>+2\<close>. These are integer equalities.
\<close>

theorem magnetization_counts_ones:
  "(init l k t h cells = Inr m0 \<and> (1 \<le> l \<longrightarrow> shape_ok l cells) \<longrightarrow>
      magnetization m0 = 2 * count1 (lattice m0) - l * l)
   \<and> (shape_ok (self_L m) (lattice m) \<and> valid_draw m d
        \<and> magnetization m = 2 * count1 (lattice m) - self_L m * self_L m \<longrightarrow>
      (\<exists>m'. trial m d = Inr m'
         \<and> magnetization m' = 2 * count1 (lattice m') - self_L m' * self_L m'
         \<and> (magnetization m' - magnetization m = - 2 \<or> magnetization m' = magnetization m
              \<or> magnetization m' - magnetization m = 2)))
   \<and> (shape_ok (self_L m) (lattice m) \<and> (\<forall>i < nat (self_L m * self_L m). valid_draw m (rnd i))
        \<and> magnetization m = 2 * count1 (lattice m) - self_L m * self_L m \<longrightarrow>
      (\<exists>m'. metropolis_step m rnd = Inr m'
         \<and> magnetization m' = 2 * count1 (lattice m') - self_L m' * self_L m'))
   \<and> (shape_ok (self_L m) (lattice m)
        \<and> magnetization m = 2 * count1 (lattice m) - self_L m * self_L m \<longrightarrow>
      - (self_L m * self_L m) \<le> magnetization m \<and> magnetization m \<le> self_L m * self_L m
      \<and> even (magnetization m) = even (self_L m * self_L m))"
proof -
  have i: "magnetization m0 = 2 * count1 (lattice m0) - l * l"
    if a: "init l k t h cells = Inr m0 \<and> (1 \<le> l \<longrightarrow> shape_ok l cells)"
  proof (cases "l = 0")
    case True
    then show ?thesis
      using a by (auto simp: init_def randint_grid_def calculate_total_energy_def py_range_def
          calculate_magnetization_def count1_def)
  next
    case False
    then have l: "1 \<le> l" and k: "1 \<le> k"
      using a by (auto simp: init_def randint_grid_def split: if_splits)
    then have sh: "shape_ok l cells" using a by simp
    show ?thesis
      using init_ok[OF l k sh, of t h] a calculate_magnetization_count[OF sh] by auto
  qed
  have t: "\<exists>m'. trial m d = Inr m'
         \<and> magnetization m' = 2 * count1 (lattice m') - self_L m' * self_L m'
         \<and> (magnetization m' - magnetization m = - 2 \<or> magnetization m' = magnetization m
              \<or> magnetization m' - magnetization m = 2)"
    if "shape_ok (self_L m) (lattice m) \<and> valid_draw m d
        \<and> magnetization m = 2 * count1 (lattice m) - self_L m * self_L m"
    using that trial_magnetization[of m d] by blast
  have p: "\<exists>m'. metropolis_step m rnd = Inr m'
         \<and> magnetization m' = 2 * count1 (lattice m') - self_L m' * self_L m'"
    if a: "shape_ok (self_L m) (lattice m) \<and> (\<forall>i < nat (self_L m * self_L m). valid_draw m (rnd i))
        \<and> magnetization m = 2 * count1 (lattice m) - self_L m * self_L m"
  proof -
    have "\<forall>d \<in> set (map rnd [0..<nat (self_L m * self_L m)]). valid_draw m d"
      using a by auto
    then show ?thesis
      unfolding metropolis_step_def using a run_trials_magnetization by blast
  qed
  have b: "- (self_L m * self_L m) \<le> magnetization m \<and> magnetization m \<le> self_L m * self_L m
      \<and> even (magnetization m) = even (self_L m * self_L m)"
    if a: "shape_ok (self_L m) (lattice m)
        \<and> magnetization m = 2 * count1 (lattice m) - self_L m * self_L m"
  proof -
    have c: "0 \<le> count1 (lattice m)" "count1 (lattice m) \<le> self_L m * self_L m"
      using a count1_bounds[of "self_L m" "lattice m"] by simp_all
    have m: "magnetization m = 2 * count1 (lattice m) - self_L m * self_L m" using a by simp
    have "- (self_L m * self_L m) \<le> magnetization m" "magnetization m \<le> self_L m * self_L m"
      using c m by linarith+
    moreover have "even (magnetization m) = even (self_L m * self_L m)"
      unfolding m by simp
    ultimately show ?thesis by blast
  qed
  show ?thesis using i t p b by blast
qed

theorem magnetization_counts_ones_witness:
  "init 2 2 1 0 [[0, 1], [1, 0]]
     = Inr \<lparr> self_L = 2, self_n = 2, self_T = 1, self_H = 0, lattice = [[0, 1], [1, 0]],
             energy = 0, magnetization = 0 \<rparr>
   \<and> shape_ok 2 [[0, 1], [1, 0]]
   \<and> valid_draw
        \<lparr> self_L = 2, self_n = 2, self_T = 1, self_H = 0, lattice = [[0, 1], [1, 0]],
          energy = 0, magnetization = 0 \<rparr>
        \<lparr> rand_x = 1, rand_y = 0, rand_delta = 1, rand_u = 0 \<rparr>
   \<and> (0::int) = 2 * count1 [[0, 1], [1, 0]] - 2 * 2
   \<and> (\<exists>m'. trial
          \<lparr> self_L = 2, self_n = 2, self_T = 1, self_H = 0, lattice = [[0, 1], [1, 0]],
            energy = 0, magnetization = 0 \<rparr>
          \<lparr> rand_x = 1, rand_y = 0, rand_delta = 1, rand_u = 0 \<rparr> = Inr m'
         \<and> magnetization m' = 2 * count1 (lattice m') - self_L m' * self_L m'
         \<and> (magnetization m' - 0 = - 2 \<or> magnetization m' = 0 \<or> magnetization m' - 0 = 2))"
proof -
  let ?m = "\<lparr> self_L = 2, self_n = 2, self_T = 1, self_H = 0, lattice = [[0, 1], [1, 0]],
          energy = 0, magnetization = 0 \<rparr>"
  let ?d = "\<lparr> rand_x = 1, rand_y = 0, rand_delta = 1, rand_u = 0 \<rparr>"
  have i: "init 2 2 1 0 [[0, 1], [1, 0]] = Inr ?m"
    by (simp add: eval_defs py_range_2)
  have s: "shape_ok 2 [[0, 1], [1, 0]]" by (simp add: shape_ok_def)
  have v: "valid_draw ?m ?d" by (simp add: valid_draw_def)
  note t = magnetization_counts_ones[of 2 2 1 0 "[[0, 1], [1, 0]]" ?m ?m ?d]
  have c: "magnetization ?m = 2 * count1 (lattice ?m) - 2 * 2"
    using t[THEN conjunct1, rule_format] i s by blast
  have h: "shape_ok (self_L ?m) (lattice ?m) \<and> valid_draw ?m ?d
        \<and> magnetization ?m = 2 * count1 (lattice ?m) - self_L ?m * self_L ?m"
    using s v c by simp
  have r: "\<exists>m'. trial ?m ?d = Inr m'
         \<and> magnetization m' = 2 * count1 (lattice m') - self_L m' * self_L m'
         \<and> (magnetization m' - magnetization ?m = - 2 \<or> magnetization m' = magnetization ?m
              \<or> magnetization m' - magnetization ?m = 2)"
    using t[THEN conjunct2, THEN conjunct1, rule_format, OF h] .
  show ?thesis using i s v c r by simp
qed

subsection \<open>The tracked energy under a field\<close>

lemma trial_one_cell_up:
  "trial \<lparr> self_L = 1, self_n = 2, self_T = t, self_H = 1, lattice = [[0]],
           energy = e, magnetization = mg \<rparr>
         \<lparr> rand_x = 0, rand_y = 0, rand_delta = 1, rand_u = u \<rparr>
   = Inr \<lparr> self_L = 1, self_n = 2, self_T = t, self_H = 1, lattice = [[1]],
           energy = e - 2, magnetization = mg + 2 \<rparr>"
  by (simp add: trial_def eval_defs)

text \<open>
  Claim C1: after every completed pass the tracked \<open>energy\<close> and \<open>magnetization\<close> equal
  \<open>calculate_total_energy()\<close> and \<open>calculate_magnetization()\<close>, for every field \<open>H\<close>. The code
  does not keep the energy in step when \<open>H\<close> is not \<open>0\<close>: \<open>calculate_total_energy\<close> halves
  the field term together with the pair terms, while an accepted move adds the whole change
  of the field term. On one cell with \<open>n = 2\<close>, \<open>H = 1\<close>, \<open>T = 1\<close> and the lattice \<open>[[0]]\<close> the
  object is built with energy \<open>-3/2\<close>, the value of the recomputation; the only possible draws of the pass are the site
  \<open>(0, 0)\<close> and the offset \<open>1\<close>; the move lowers the energy and is accepted; the pass ends
  with \<open>energy = -7/2\<close>, and the recomputation on the new lattice gives \<open>-5/2\<close>. The
  magnetization agrees with its recomputation.
\<close>

theorem energy_drifts_with_field:
  "init 1 2 1 1 [[0]]
     = Inr \<lparr> self_L = 1, self_n = 2, self_T = 1, self_H = 1, lattice = [[0]],
             energy = - 3 / 2, magnetization = - 1 \<rparr>
   \<and> calculate_total_energy
         \<lparr> self_L = 1, self_n = 2, self_T = 1, self_H = 1, lattice = [[0]],
           energy = - 3 / 2, magnetization = - 1 \<rparr> = Inr (- 3 / 2)
   \<and> metropolis_step
         \<lparr> self_L = 1, self_n = 2, self_T = 1, self_H = 1, lattice = [[0]],
           energy = - 3 / 2, magnetization = - 1 \<rparr>
         (\<lambda>i. \<lparr> rand_x = 0, rand_y = 0, rand_delta = 1, rand_u = 1 / 2 \<rparr>)
     = Inr \<lparr> self_L = 1, self_n = 2, self_T = 1, self_H = 1, lattice = [[1]],
             energy = - 7 / 2, magnetization = 1 \<rparr>
   \<and> calculate_total_energy
         \<lparr> self_L = 1, self_n = 2, self_T = 1, self_H = 1, lattice = [[1]],
           energy = - 7 / 2, magnetization = 1 \<rparr> = Inr (- 5 / 2)
   \<and> calculate_magnetization
         \<lparr> self_L = 1, self_n = 2, self_T = 1, self_H = 1, lattice = [[1]],
           energy = - 7 / 2, magnetization = 1 \<rparr> = 1"
proof -
  have i: "init 1 2 1 1 [[0]]
     = Inr \<lparr> self_L = 1, self_n = 2, self_T = 1, self_H = 1, lattice = [[0]],
             energy = - 3 / 2, magnetization = - 1 \<rparr>"
    by (simp add: eval_defs py_range_1)
  have c: "calculate_total_energy
         \<lparr> self_L = 1, self_n = 2, self_T = 1, self_H = 1, lattice = [[0]],
           energy = - 3 / 2, magnetization = - 1 \<rparr> = Inr (- 3 / 2)"
    by (simp add: eval_defs py_range_1)
  have p: "metropolis_step
         \<lparr> self_L = 1, self_n = 2, self_T = 1, self_H = 1, lattice = [[0]],
           energy = - 3 / 2, magnetization = - 1 \<rparr>
         (\<lambda>i. \<lparr> rand_x = 0, rand_y = 0, rand_delta = 1, rand_u = 1 / 2 \<rparr>)
     = Inr \<lparr> self_L = 1, self_n = 2, self_T = 1, self_H = 1, lattice = [[1]],
             energy = - 7 / 2, magnetization = 1 \<rparr>"
    by (simp add: metropolis_step_def trial_one_cell_up)
  have e: "calculate_total_energy
         \<lparr> self_L = 1, self_n = 2, self_T = 1, self_H = 1, lattice = [[1]],
           energy = - 7 / 2, magnetization = 1 \<rparr> = Inr (- 5 / 2)"
    by (simp add: eval_defs py_range_1)
  have m: "calculate_magnetization
         \<lparr> self_L = 1, self_n = 2, self_T = 1, self_H = 1, lattice = [[1]],
           energy = - 7 / 2, magnetization = 1 \<rparr> = 1"
    by (simp add: eval_defs)
  show ?thesis using i c p e m by blast
qed

subsection \<open>Where the tracked energy does agree: no field\<close>

text \<open>
  Counting equal neighbours on a ring of \<open>l\<close> sites: the sum over all sites of the left
  bonds equals the sum of the right bonds, so every bond is counted twice.
\<close>

lemma ring_shift:
  assumes "0 < l"
  shows "(\<Sum>x \<in> {0..l - 1}. f ((x + 1) mod l)) = (\<Sum>x \<in> {0..l - 1}. f (x::int))"
proof (rule sum.reindex_bij_witness[where i = "\<lambda>x. (x - 1) mod l" and j = "\<lambda>x. (x + 1) mod l"])
  fix a assume "a \<in> {0..l - 1}"
  then have a: "0 \<le> a" "a < l" by simp_all
  show "((a + 1) mod l - 1) mod l = a"
    using a by (simp add: mod_diff_left_eq)
  show "(a + 1) mod l \<in> {0..l - 1}"
    using assms pos_mod_bound[OF assms, of "a + 1"] by simp
next
  fix b assume "b \<in> {0..l - 1}"
  then have b: "0 \<le> b" "b < l" by simp_all
  show "((b - 1) mod l + 1) mod l = b"
    using b by (simp add: mod_add_left_eq)
  show "(b - 1) mod l \<in> {0..l - 1}"
    using assms pos_mod_bound[OF assms, of "b - 1"] by simp
next
  fix a assume "a \<in> {0..l - 1}"
  show "f ((a + 1) mod l) = f ((a + 1) mod l)" ..
qed

lemma ring_bonds_symmetric:
  assumes "0 < (l::int)"
  shows "(\<Sum>x \<in> {0..l - 1}. if f x = f ((x - 1) mod l) then 1 else (0::int))
       = (\<Sum>x \<in> {0..l - 1}. if f x = (f ((x + 1) mod l) :: int) then 1 else 0)"
proof -
  let ?g = "\<lambda>x. if f x = f ((x - 1) mod l) then 1 else (0::int)"
  have "(\<Sum>x \<in> {0..l - 1}. ?g x) = (\<Sum>x \<in> {0..l - 1}. ?g ((x + 1) mod l))"
    using ring_shift[OF assms, of ?g] by simp
  also have "\<dots> = (\<Sum>x \<in> {0..l - 1}. if f x = f ((x + 1) mod l) then 1 else 0)"
  proof (rule sum.cong[OF refl])
    fix x assume "x \<in> {0..l - 1}"
    then have "((x + 1) mod l - 1) mod l = x" by (simp add: mod_diff_left_eq)
    then show "?g ((x + 1) mod l) = (if f x = f ((x + 1) mod l) then 1 else 0)"
      by auto
  qed
  finally show ?thesis .
qed

text \<open>Changing one site of the ring changes the bond sum by what that site sees change.\<close>

lemma ring_bonds_update:
  fixes f :: "int \<Rightarrow> int"
  assumes l: "0 < l" and x0: "0 \<le> x0" "x0 < l"
  shows "(\<Sum>x \<in> {0..l - 1}. if (f(x0 := v)) x = (f(x0 := v)) ((x + 1) mod l) then 1 else 0)
         - (\<Sum>x \<in> {0..l - 1}. if f x = f ((x + 1) mod l) then 1 else (0::int))
       = ((if v = (f(x0 := v)) ((x0 + 1) mod l) then 1 else 0)
            - (if f x0 = f ((x0 + 1) mod l) then 1 else 0))
         + ((if v = (f(x0 := v)) ((x0 - 1) mod l) then 1 else 0)
            - (if f x0 = f ((x0 - 1) mod l) then 1 else 0))"
proof -
  let ?f' = "f(x0 := v)"
  let ?g = "\<lambda>x. (if ?f' x = ?f' ((x + 1) mod l) then 1 else 0)
              - (if f x = f ((x + 1) mod l) then 1 else (0::int))"
  have lhs: "(\<Sum>x \<in> {0..l - 1}. if ?f' x = ?f' ((x + 1) mod l) then 1 else 0)
         - (\<Sum>x \<in> {0..l - 1}. if f x = f ((x + 1) mod l) then 1 else (0::int))
       = (\<Sum>x \<in> {0..l - 1}. ?g x)"
    by (simp add: sum_subtractf)
  show ?thesis
  proof (cases "l = 1")
    case True
    then have "x0 = 0" using x0 by simp
    then show ?thesis using True by simp
  next
    case False
    then have l2: "2 \<le> l" using l by simp
    let ?xl = "(x0 - 1) mod l"
    have xl: "0 \<le> ?xl" "?xl < l"
      using l by simp_all
    have rxl: "(?xl + 1) mod l = x0"
      using x0 by (simp add: mod_add_left_eq)
    have ne: "?xl \<noteq> x0"
    proof
      assume e: "?xl = x0"
      show False
      proof (cases "x0 = 0")
        case True
        then have "?xl = l - 1" using l2 by (simp add: zmod_minus1)
        then show False using e True l2 by simp
      next
        case False
        then have "?xl = x0 - 1" using x0 by simp
        then show False using e by simp
      qed
    qed
    have nr: "(x0 + 1) mod l \<noteq> x0"
    proof
      assume e: "(x0 + 1) mod l = x0"
      then have "((x0 + 1) mod l - 1) mod l = ?xl" by simp
      moreover have "((x0 + 1) mod l - 1) mod l = x0"
        using x0 by (simp add: mod_diff_left_eq)
      ultimately show False using ne by simp
    qed
    have zero: "?g i = 0" if i: "i \<in> {0..l - 1} - {x0, ?xl}" for i
    proof -
      have i0: "i \<noteq> x0" "i \<noteq> ?xl" "0 \<le> i" "i < l" using i by auto
      have "(i + 1) mod l \<noteq> x0"
      proof
        assume e: "(i + 1) mod l = x0"
        have "((i + 1) mod l - 1) mod l = i"
          using i0 by (simp add: mod_diff_left_eq)
        then show False using e i0(2) by simp
      qed
      then show ?thesis using i0(1) by simp
    qed
    have sub: "{x0, ?xl} \<subseteq> {0..l - 1}" using x0 xl by auto
    have "(\<Sum>x \<in> {0..l - 1}. ?g x) = (\<Sum>x \<in> {x0, ?xl}. ?g x)"
      by (rule sum.mono_neutral_right) (use sub zero in auto)
    also have "\<dots> = ?g x0 + ?g ?xl" using ne by simp
    also have "?g ?xl = (if v = ?f' ?xl then 1 else 0) - (if f x0 = f ?xl then 1 else 0)"
      using ne rxl by auto
    finally show ?thesis using lhs by simp
  qed
qed

lemma same_neighbors_sum:
  assumes l: "0 < l"
  shows "(\<Sum>x \<in> {0..l - 1}. \<Sum>y \<in> {0..l - 1}. same_neighbors l c x y) = 2 * bonds l c"
proof -
  let ?S = "{0..l - 1}"
  have h: "(\<Sum>x \<in> ?S. \<Sum>y \<in> ?S. if c x y = c ((x - 1) mod l) y then 1 else (0::int))
         = (\<Sum>x \<in> ?S. \<Sum>y \<in> ?S. if c x y = c ((x + 1) mod l) y then 1 else 0)"
  proof -
    have "(\<Sum>x \<in> ?S. \<Sum>y \<in> ?S. if c x y = c ((x - 1) mod l) y then 1 else (0::int))
        = (\<Sum>y \<in> ?S. \<Sum>x \<in> ?S. if c x y = c ((x - 1) mod l) y then 1 else 0)"
      by (rule sum.swap)
    also have "\<dots> = (\<Sum>y \<in> ?S. \<Sum>x \<in> ?S. if c x y = c ((x + 1) mod l) y then 1 else 0)"
      by (rule sum.cong[OF refl]) (rule ring_bonds_symmetric[OF l, of "\<lambda>x. c x _"])
    also have "\<dots> = (\<Sum>x \<in> ?S. \<Sum>y \<in> ?S. if c x y = c ((x + 1) mod l) y then 1 else 0)"
      by (rule sum.swap)
    finally show ?thesis .
  qed
  have v: "(\<Sum>x \<in> ?S. \<Sum>y \<in> ?S. if c x y = c x ((y - 1) mod l) then 1 else (0::int))
         = (\<Sum>x \<in> ?S. \<Sum>y \<in> ?S. if c x y = c x ((y + 1) mod l) then 1 else 0)"
    by (rule sum.cong[OF refl]) (rule ring_bonds_symmetric[OF l, of "c _"])
  show ?thesis
    unfolding same_neighbors_def bonds_def
    by (simp add: sum.distrib h v)
qed

lemma bonds_update:
  assumes l: "0 < l" and x0: "0 \<le> x0" "x0 < l" and y0: "0 \<le> y0" "y0 < l"
  shows "bonds l (\<lambda>x y. if x = x0 \<and> y = y0 then v else c x y) - bonds l c
       = same_neighbors l (\<lambda>x y. if x = x0 \<and> y = y0 then v else c x y) x0 y0
         - same_neighbors l c x0 y0"
proof -
  let ?S = "{0..l - 1}"
  let ?c' = "\<lambda>x y. if x = x0 \<and> y = y0 then v else c x y"
  let ?hrow = "\<lambda>c y. \<Sum>x \<in> ?S. if c x y = c ((x + 1) mod l) y then 1 else (0::int)"
  let ?vcol = "\<lambda>c x. \<Sum>y \<in> ?S. if c x y = c x ((y + 1) mod l) then 1 else (0::int)"
  let ?Dh = "((if v = ?c' ((x0 + 1) mod l) y0 then 1 else 0)
               - (if c x0 y0 = c ((x0 + 1) mod l) y0 then 1 else 0))
            + ((if v = ?c' ((x0 - 1) mod l) y0 then 1 else 0)
               - (if c x0 y0 = c ((x0 - 1) mod l) y0 then 1 else (0::int)))"
  let ?Dv = "((if v = ?c' x0 ((y0 + 1) mod l) then 1 else 0)
               - (if c x0 y0 = c x0 ((y0 + 1) mod l) then 1 else 0))
            + ((if v = ?c' x0 ((y0 - 1) mod l) then 1 else 0)
               - (if c x0 y0 = c x0 ((y0 - 1) mod l) then 1 else (0::int)))"
  have split: "bonds l d = (\<Sum>y \<in> ?S. ?hrow d y) + (\<Sum>x \<in> ?S. ?vcol d x)" for d
  proof -
    have "(\<Sum>x \<in> ?S. \<Sum>y \<in> ?S. if d x y = d ((x + 1) mod l) y then 1 else (0::int))
          = (\<Sum>y \<in> ?S. ?hrow d y)"
      by (rule sum.swap)
    then show ?thesis by (simp add: bonds_def sum.distrib)
  qed
  have hrow: "?hrow ?c' y - ?hrow c y = (if y = y0 then ?Dh else 0)" for y
  proof (cases "y = y0")
    case True
    have p: "?c' x y0 = ((\<lambda>x. c x y0)(x0 := v)) x" for x by simp
    have "?hrow ?c' y0 - ?hrow c y0 = ?Dh"
      unfolding p by (rule ring_bonds_update[OF l x0, of "\<lambda>x. c x y0" v])
    then show ?thesis unfolding True by simp
  next
    case False
    then show ?thesis by simp
  qed
  have vcol: "?vcol ?c' x - ?vcol c x = (if x = x0 then ?Dv else 0)" for x
  proof (cases "x = x0")
    case True
    have p: "?c' x0 y = ((c x0)(y0 := v)) y" for y by simp
    have "?vcol ?c' x0 - ?vcol c x0 = ?Dv"
      unfolding p by (rule ring_bonds_update[OF l y0, of "c x0" v])
    then show ?thesis unfolding True by simp
  next
    case False
    then show ?thesis by simp
  qed
  have "bonds l ?c' - bonds l c
        = (\<Sum>y \<in> ?S. ?hrow ?c' y - ?hrow c y) + (\<Sum>x \<in> ?S. ?vcol ?c' x - ?vcol c x)"
    unfolding split by (simp add: sum_subtractf)
  also have "\<dots> = (\<Sum>y \<in> ?S. if y = y0 then ?Dh else 0) + (\<Sum>x \<in> ?S. if x = x0 then ?Dv else 0)"
    by (simp only: hrow vcol)
  also have "\<dots> = ?Dh + ?Dv"
    using x0 y0 by simp
  also have "\<dots> = same_neighbors l ?c' x0 y0 - same_neighbors l c x0 y0"
    by (simp add: same_neighbors_def)
  finally show ?thesis .
qed

lemma site_energy_same_neighbors:
  "site_energy l h a x y
   = - real_of_int (same_neighbors l (cell a) x y) + (if cell a x y = 1 then - h else h)"
  by (simp add: site_energy_def neighbor_indices_def same_neighbors_def)

lemma cell_upd:
  assumes "shape_ok l a" "0 \<le> x0" "x0 < l" "0 \<le> y0" "y0 < l"
    and "0 \<le> x" "x < l" "0 \<le> y" "y < l"
  shows "cell (upd a x0 y0 v) x y = (if x = x0 \<and> y = y0 then v else cell a x y)"
proof -
  have i: "nat x0 < length a" "nat x < length a" using assms by (simp_all add: shape_ok_def)
  have j: "nat y0 < length (a ! nat x0)" using assms by (simp add: shape_ok_def)
  have e: "nat x = nat x0 \<longleftrightarrow> x = x0" "nat y = nat y0 \<longleftrightarrow> y = y0"
    using assms by auto
  show ?thesis
    using i j e by (auto simp: cell_def upd_def nth_list_update)
qed

lemma ring_mod_range:
  "0 < (l::int) \<Longrightarrow> 0 \<le> k mod l \<and> k mod l < l"
  by simp

lemma same_neighbors_cong:
  assumes "0 < l" "0 \<le> x" "x < l" "0 \<le> y" "y < l"
    and "\<And>i j. 0 \<le> i \<Longrightarrow> i < l \<Longrightarrow> 0 \<le> j \<Longrightarrow> j < l \<Longrightarrow> c i j = d i j"
  shows "same_neighbors l c x y = same_neighbors l d x y"
proof -
  note r = ring_mod_range[OF assms(1)]
  have "c x y = d x y" "c ((x + 1) mod l) y = d ((x + 1) mod l) y"
    "c ((x - 1) mod l) y = d ((x - 1) mod l) y" "c x ((y + 1) mod l) = d x ((y + 1) mod l)"
    "c x ((y - 1) mod l) = d x ((y - 1) mod l)"
    using assms(2-5) r by (auto intro!: assms(6))
  then show ?thesis by (simp add: same_neighbors_def)
qed

text \<open>
  The sum of all site energies after one cell has changed: the pair part of the site's own
  change counts twice (the four neighbours see it too), the field part once.
\<close>

lemma grid_energy_upd:
  assumes sh: "shape_ok l a" and x0: "0 \<le> x0" "x0 < l" and y0: "0 \<le> y0" "y0 < l"
  shows "(\<Sum>x\<leftarrow>py_range l. \<Sum>y\<leftarrow>py_range l. site_energy l h (upd a x0 y0 v) x y)
        = (\<Sum>x\<leftarrow>py_range l. \<Sum>y\<leftarrow>py_range l. site_energy l h a x y)
          + 2 * (site_energy l h (upd a x0 y0 v) x0 y0 - site_energy l h a x0 y0)
          - ((if v = 1 then - h else h) - (if cell a x0 y0 = 1 then - h else h))"
proof -
  let ?S = "{0..l - 1}"
  let ?c = "cell a"
  let ?c' = "\<lambda>x y. if x = x0 \<and> y = y0 then v else cell a x y"
  let ?a' = "upd a x0 y0 v"
  let ?F = "\<lambda>u::int. if u = 1 then - h else h"
  have l: "0 < l" using x0 by linarith
  have cu: "cell ?a' x y = ?c' x y" if "0 \<le> x" "x < l" "0 \<le> y" "y < l" for x y
    using cell_upd[OF sh x0 y0 that] .
  have A: "site_energy l h ?a' x y = - real_of_int (same_neighbors l ?c' x y) + ?F (?c' x y)"
    if "x \<in> ?S" "y \<in> ?S" for x y
  proof -
    have r: "0 \<le> x" "x < l" "0 \<le> y" "y < l" using that by simp_all
    have "same_neighbors l (cell ?a') x y = same_neighbors l ?c' x y"
      by (rule same_neighbors_cong[OF l r]) (rule cu)
    then show ?thesis
      unfolding site_energy_same_neighbors cu[OF r] by simp
  qed
  have B: "(\<Sum>x \<in> ?S. \<Sum>y \<in> ?S. site_energy l h ?a' x y)
           = - 2 * real_of_int (bonds l ?c') + (\<Sum>x \<in> ?S. \<Sum>y \<in> ?S. ?F (?c' x y))"
  proof -
    have "(\<Sum>x \<in> ?S. \<Sum>y \<in> ?S. site_energy l h ?a' x y)
          = (\<Sum>x \<in> ?S. \<Sum>y \<in> ?S. - real_of_int (same_neighbors l ?c' x y) + ?F (?c' x y))"
      by (intro sum.cong refl A)
    also have "\<dots> = - real_of_int (\<Sum>x \<in> ?S. \<Sum>y \<in> ?S. same_neighbors l ?c' x y)
                     + (\<Sum>x \<in> ?S. \<Sum>y \<in> ?S. ?F (?c' x y))"
      by (simp only: sum.distrib sum_negf of_int_sum)
    finally show ?thesis by (simp add: same_neighbors_sum[OF l])
  qed
  have C: "(\<Sum>x \<in> ?S. \<Sum>y \<in> ?S. site_energy l h a x y)
           = - 2 * real_of_int (bonds l ?c) + (\<Sum>x \<in> ?S. \<Sum>y \<in> ?S. ?F (?c x y))"
  proof -
    have "(\<Sum>x \<in> ?S. \<Sum>y \<in> ?S. site_energy l h a x y)
          = - real_of_int (\<Sum>x \<in> ?S. \<Sum>y \<in> ?S. same_neighbors l ?c x y)
            + (\<Sum>x \<in> ?S. \<Sum>y \<in> ?S. ?F (?c x y))"
      by (simp only: site_energy_same_neighbors sum.distrib sum_negf of_int_sum)
    then show ?thesis by (simp add: same_neighbors_sum[OF l])
  qed
  have D: "(\<Sum>x \<in> ?S. \<Sum>y \<in> ?S. ?F (?c' x y))
           = (\<Sum>x \<in> ?S. \<Sum>y \<in> ?S. ?F (?c x y)) + (?F v - ?F (?c x0 y0))"
  proof -
    have "(\<Sum>x \<in> ?S. \<Sum>y \<in> ?S. ?F (?c' x y)) - (\<Sum>x \<in> ?S. \<Sum>y \<in> ?S. ?F (?c x y))
          = (\<Sum>x \<in> ?S. \<Sum>y \<in> ?S. ?F (?c' x y) - ?F (?c x y))"
      by (simp only: sum_subtractf)
    also have "\<dots> = (\<Sum>x \<in> ?S. \<Sum>y \<in> ?S.
                        if x = x0 then (if y = y0 then ?F v - ?F (?c x0 y0) else 0) else 0)"
      by (intro sum.cong refl) auto
    also have "\<dots> = (\<Sum>x \<in> ?S. if x = x0 then (\<Sum>y \<in> ?S. if y = y0 then ?F v - ?F (?c x0 y0) else 0) else 0)"
      by (intro sum.cong refl) simp
    also have "\<dots> = ?F v - ?F (?c x0 y0)"
      using x0 y0 by simp
    finally show ?thesis by linarith
  qed
  have E: "bonds l ?c' - bonds l ?c = same_neighbors l ?c' x0 y0 - same_neighbors l ?c x0 y0"
    by (rule bonds_update[OF l x0 y0])
  have x0S: "x0 \<in> ?S" and y0S: "y0 \<in> ?S" using x0 y0 by simp_all
  have F: "site_energy l h ?a' x0 y0 - site_energy l h a x0 y0
           = - real_of_int (same_neighbors l ?c' x0 y0 - same_neighbors l ?c x0 y0)
             + (?F v - ?F (?c x0 y0))"
  proof -
    have s1: "site_energy l h ?a' x0 y0 = - real_of_int (same_neighbors l ?c' x0 y0) + ?F v"
      using A[OF x0S y0S] by simp
    have s2: "site_energy l h a x0 y0
              = - real_of_int (same_neighbors l ?c x0 y0) + ?F (?c x0 y0)"
      by (rule site_energy_same_neighbors)
    show ?thesis unfolding s1 s2 by simp
  qed
  have "(\<Sum>x \<in> ?S. \<Sum>y \<in> ?S. site_energy l h ?a' x y)
        - (\<Sum>x \<in> ?S. \<Sum>y \<in> ?S. site_energy l h a x y)
        = - 2 * real_of_int (bonds l ?c' - bonds l ?c) + (?F v - ?F (?c x0 y0))"
    unfolding B C D by simp
  also have "\<dots> = 2 * (site_energy l h ?a' x0 y0 - site_energy l h a x0 y0)
                   - (?F v - ?F (?c x0 y0))"
    unfolding E F by simp
  finally show ?thesis unfolding grid_sum_list by linarith
qed

text \<open>
  An accepted move: the recomputed energy moves by \<open>delta_energy\<close> less half the change of
  the field term. The tracked energy moves by \<open>delta_energy\<close>.
\<close>

lemma accepted_energy_drift:
  assumes sh: "shape_ok (self_L m) (lattice m)" and vd: "valid_draw m d"
    and e: "calculate_total_energy m = Inr e"
  shows "calculate_total_energy (accepted_state m d)
         = Inr (e + delta_energy_of m d
                - ((if proposal m d = 1 then - self_H m else self_H m)
                   - (if cell (lattice m) (rand_x d) (rand_y d) = 1 then - self_H m else self_H m))
                  / 2)"
proof -
  have r: "0 \<le> rand_x d" "rand_x d < self_L m" "0 \<le> rand_y d" "rand_y d < self_L m"
    using vd by (auto simp: valid_draw_def)
  let ?a' = "upd (lattice m) (rand_x d) (rand_y d) (proposal m d)"
  have sh': "shape_ok (self_L (accepted_state m d)) (lattice (accepted_state m d))"
    using shape_ok_update[OF sh r(1,2)] by (simp add: accepted_state_def upd_def)
  have t': "calculate_total_energy (accepted_state m d)
            = Inr ((\<Sum>x\<leftarrow>py_range (self_L m). \<Sum>y\<leftarrow>py_range (self_L m).
                      site_energy (self_L m) (self_H m) ?a' x y) / 2)"
    using calculate_total_energy_ok[OF sh'] by (simp add: accepted_state_def)
  have t: "e = (\<Sum>x\<leftarrow>py_range (self_L m). \<Sum>y\<leftarrow>py_range (self_L m).
                  site_energy (self_L m) (self_H m) (lattice m) x y) / 2"
    using calculate_total_energy_ok[OF sh] e by simp
  show ?thesis
    unfolding t' t grid_energy_upd[OF sh r] delta_energy_of_def
    by (simp add: field_simps)
qed

lemma trial_energy_consistent:
  assumes sh: "shape_ok (self_L m) (lattice m)" and vd: "valid_draw m d"
    and h: "self_H m = 0" and e: "calculate_total_energy m = Inr (energy m)"
  shows "\<exists>m'. trial m d = Inr m' \<and> calculate_total_energy m' = Inr (energy m')"
proof (cases "rejected m d")
  case True
  then show ?thesis using trial_ok[OF sh vd] e by simp
next
  case False
  have "calculate_total_energy (accepted_state m d) = Inr (energy m + delta_energy_of m d)"
    using accepted_energy_drift[OF sh vd e] h by simp
  then have "calculate_total_energy (accepted_state m d) = Inr (energy (accepted_state m d))"
    by (simp add: accepted_state_def)
  then show ?thesis using False trial_ok[OF sh vd] by simp
qed

lemma run_trials_energy_consistent:
  assumes "shape_ok (self_L m) (lattice m)" "\<forall>d \<in> set ds. valid_draw m d"
    and "self_H m = 0" "calculate_total_energy m = Inr (energy m)"
  shows "\<exists>m'. run_trials ds m = Inr m' \<and> calculate_total_energy m' = Inr (energy m')"
  using assms
proof (induction ds arbitrary: m)
  case Nil
  then show ?case by simp
next
  case (Cons d ds)
  from Cons.prems have vd: "valid_draw m d" by simp
  from trial_preserves[OF Cons.prems(1) vd]
    trial_energy_consistent[OF Cons.prems(1) vd Cons.prems(3,4)]
  obtain m1 where
    m1: "trial m d = Inr m1" "self_L m1 = self_L m" "self_n m1 = self_n m"
      "self_H m1 = self_H m" "shape_ok (self_L m1) (lattice m1)"
      "calculate_total_energy m1 = Inr (energy m1)"
    by auto
  have "\<forall>d \<in> set ds. valid_draw m1 d"
    using Cons.prems(2) m1(2,3) by (simp add: valid_draw_def)
  moreover have "self_H m1 = 0" using m1(4) Cons.prems(3) by simp
  ultimately show ?case using Cons.IH[OF m1(5) _ _ m1(6)] m1(1) by simp
qed

text \<open>
  Without a field the consistency that claim C1 describes does hold: a pass started from a
  consistent object ends in a consistent object.
\<close>

lemma pass_consistent_without_field:
  assumes "shape_ok (self_L m) (lattice m)"
    and "\<forall>i < nat (self_L m * self_L m). valid_draw m (rnd i)"
    and "self_H m = 0" "calculate_total_energy m = Inr (energy m)"
  shows "\<exists>m'. metropolis_step m rnd = Inr m' \<and> calculate_total_energy m' = Inr (energy m')"
  unfolding metropolis_step_def
  by (rule run_trials_energy_consistent[OF assms(1) _ assms(3,4)]) (use assms(2) in auto)

subsection \<open>The history of observables\<close>

lemma trial_keeps_T:
  "trial m d = Inr m' \<Longrightarrow> self_T m' = self_T m"
  unfolding trial_def Let_def bindE_def
  by (auto split: sum.splits if_splits)

lemma run_trials_keeps_T:
  "run_trials ds m = Inr m' \<Longrightarrow> self_T m' = self_T m"
proof (induction ds arbitrary: m)
  case Nil
  then show ?case by simp
next
  case (Cons d ds)
  then obtain m1 where m1: "trial m d = Inr m1" "run_trials ds m1 = Inr m'"
    by (auto simp: bindE_def split: sum.splits)
  then show ?case using Cons.IH[OF m1(2)] trial_keeps_T[OF m1(1)] by simp
qed

lemma metropolis_step_keeps_T:
  "metropolis_step m rnd = Inr m' \<Longrightarrow> self_T m' = self_T m"
  unfolding metropolis_step_def by (rule run_trials_keeps_T)

lemma update_effect:
  assumes "update f rnd s = Inr s'"
  shows "temperature_range s' = temperature_range s"
    and "lattice_size s' = lattice_size s"
    and "f < length (temperature_range s)"
    and "self_T (zn_model s') = temperature_range s ! f"
    and "length (energy_data s') = Suc (length (energy_data s))"
    and "length (magnetization_data s') = Suc (length (magnetization_data s))"
    and "energy_data s = [] \<Longrightarrow>
           specific_heat_data s' = specific_heat_data s
           \<and> susceptibility_data s' = susceptibility_data s"
    and "energy_data s \<noteq> [] \<Longrightarrow>
           specific_heat_data s' = specific_heat_data s
             @ [float_div (np_var (energy_data s'))
                  (real_of_int ((lattice_size s)\<^sup>2) * (self_T (zn_model s'))\<^sup>2)]
           \<and> susceptibility_data s' = susceptibility_data s
             @ [float_div (np_var (map real_of_int (magnetization_data s')))
                  (real_of_int ((lattice_size s)\<^sup>2) * self_T (zn_model s'))]"
proof -
  from assms obtain t zm where
    t: "array_get (temperature_range s) f = Inr t"
    and zm: "metropolis_step ((zn_model s)\<lparr>self_T := t\<rparr>) rnd = Inr zm"
    by (auto simp: update_def bindE_def split: sum.splits)
  have f: "f < length (temperature_range s)" "t = temperature_range s ! f"
    using t by (auto simp: array_get_def split: if_splits)
  have T: "self_T zm = t" using metropolis_step_keeps_T[OF zm] by simp
  have s': "s' = (if energy_data s = []
      then s\<lparr> zn_model := zm, energy_data := energy_data s @ [energy zm],
               magnetization_data := magnetization_data s @ [magnetization zm] \<rparr>
      else s\<lparr> zn_model := zm, energy_data := energy_data s @ [energy zm],
               magnetization_data := magnetization_data s @ [magnetization zm],
               specific_heat_data := specific_heat_data s
                 @ [float_div (np_var (energy_data s @ [energy zm]))
                      (real_of_int ((lattice_size s)\<^sup>2) * (self_T zm)\<^sup>2)],
               susceptibility_data := susceptibility_data s
                 @ [float_div (np_var (map real_of_int (magnetization_data s @ [magnetization zm])))
                      (real_of_int ((lattice_size s)\<^sup>2) * self_T zm)] \<rparr>)"
    using assms unfolding update_def t zm bindE_Inr Let_def
    by (cases "energy_data s") (simp_all)
  show "temperature_range s' = temperature_range s" "lattice_size s' = lattice_size s"
    "length (energy_data s') = Suc (length (energy_data s))"
    "length (magnetization_data s') = Suc (length (magnetization_data s))"
    by (simp_all add: s')
  show "f < length (temperature_range s)" by (rule f(1))
  show "self_T (zn_model s') = temperature_range s ! f" using T f(2) by (simp add: s')
  show "energy_data s = [] \<Longrightarrow>
           specific_heat_data s' = specific_heat_data s
           \<and> susceptibility_data s' = susceptibility_data s"
    by (simp add: s')
  show "energy_data s \<noteq> [] \<Longrightarrow>
           specific_heat_data s' = specific_heat_data s
             @ [float_div (np_var (energy_data s'))
                  (real_of_int ((lattice_size s)\<^sup>2) * (self_T (zn_model s'))\<^sup>2)]
           \<and> susceptibility_data s' = susceptibility_data s
             @ [float_div (np_var (map real_of_int (magnetization_data s')))
                  (real_of_int ((lattice_size s)\<^sup>2) * self_T (zn_model s'))]"
    by (simp add: s')
qed

lemma bindE_assoc:
  "bindE (bindE r g) k = bindE r (\<lambda>x. bindE (g x) k)"
  by (cases r) simp_all

lemma run_frames_snoc:
  "run_frames (fs @ [f]) rnd s = bindE (run_frames fs rnd s) (update f (rnd f))"
proof (induction fs arbitrary: s)
  case Nil
  show ?case by (cases "update f (rnd f) s") simp_all
next
  case (Cons g fs)
  show ?case
    by (cases "update g (rnd g) s") (simp_all add: Cons.IH)
qed

lemma run_frames_Suc:
  assumes "run_frames [0..<Suc k] rnd s0 = Inr s"
  obtains s1 where "run_frames [0..<k] rnd s0 = Inr s1" "update k (rnd k) s1 = Inr s"
  using assms by (auto simp: run_frames_snoc bindE_def split: sum.splits)

lemma run_frames_lengths:
  assumes "run_frames [0..<k] rnd s0 = Inr s"
  shows "temperature_range s = temperature_range s0 \<and> lattice_size s = lattice_size s0
         \<and> length (energy_data s) = length (energy_data s0) + k
         \<and> length (magnetization_data s) = length (magnetization_data s0) + k"
  using assms
proof (induction k arbitrary: s)
  case 0
  then show ?case by simp
next
  case (Suc k)
  from run_frames_Suc[OF Suc.prems] obtain s1 where
    s1: "run_frames [0..<k] rnd s0 = Inr s1" "update k (rnd k) s1 = Inr s" by blast
  show ?case using Suc.IH[OF s1(1)] update_effect(1,2,5,6)[OF s1(2)] by simp
qed

lemma np_var_formula:
  "np_var xs = (\<Sum>x\<leftarrow>xs. (x - sum_list xs / real (length xs))\<^sup>2) / real (length xs)"
  by (simp add: np_var_def np_mean_def)

text \<open>
  Claim C6: starting from empty histories, after exactly one completed pass no specific
  heat and no susceptibility has been produced; after \<open>k \<ge> 2\<close> completed passes the last
  specific heat is the population variance of the whole \<open>k\<close>-element energy history divided
  by \<open>L\<^sup>2 T\<^sup>2\<close>, and the last susceptibility is the population variance of the whole
  \<open>k\<close>-element magnetization history divided by \<open>L\<^sup>2 T\<close>, with \<open>T\<close> the temperature of
  pass \<open>k\<close>. (\<open>L\<close> is the module's \<open>lattice_size\<close>; the quotients are stated for \<open>L\<close> and \<open>T\<close>
  different from \<open>0\<close>, where numpy's division returns a finite number.)
\<close>

theorem observable_statistics:
  assumes "energy_data s0 = []" "magnetization_data s0 = []"
    and "specific_heat_data s0 = []" "susceptibility_data s0 = []"
    and "run_frames [0..<k] rnd s0 = Inr s"
  shows "length (energy_data s) = k \<and> length (magnetization_data s) = k
     \<and> (k = 1 \<longrightarrow> specific_heat_data s = [] \<and> susceptibility_data s = [])
     \<and> (2 \<le> k \<longrightarrow>
          self_T (zn_model s) = temperature_range s0 ! (k - 1)
          \<and> specific_heat_data s \<noteq> [] \<and> susceptibility_data s \<noteq> []
          \<and> (lattice_size s0 \<noteq> 0 \<and> self_T (zn_model s) \<noteq> 0 \<longrightarrow>
               last (specific_heat_data s)
                 = Some ((\<Sum>e\<leftarrow>energy_data s. (e - sum_list (energy_data s) / real k)\<^sup>2) / real k
                         / ((real_of_int (lattice_size s0))\<^sup>2 * (self_T (zn_model s))\<^sup>2))
               \<and> last (susceptibility_data s)
                 = Some ((\<Sum>x\<leftarrow>map real_of_int (magnetization_data s).
                            (x - sum_list (map real_of_int (magnetization_data s)) / real k)\<^sup>2)
                         / real k
                         / ((real_of_int (lattice_size s0))\<^sup>2 * self_T (zn_model s)))))"
proof -
  note len = run_frames_lengths[OF assms(5)]
  have l: "length (energy_data s) = k" "length (magnetization_data s) = k"
    using len assms(1,2) by simp_all
  have one: "specific_heat_data s = [] \<and> susceptibility_data s = []" if "k = 1"
  proof -
    have "run_frames [0..<Suc 0] rnd s0 = Inr s" using assms(5) that by simp
    from run_frames_Suc[OF this] obtain s1 where
      s1: "run_frames [0..<0] rnd s0 = Inr s1" "update 0 (rnd 0) s1 = Inr s" by blast
    then have "s1 = s0" by simp
    then show ?thesis using update_effect(7)[OF s1(2)] assms(1,3,4) by simp
  qed
  have two: "self_T (zn_model s) = temperature_range s0 ! (k - 1)
          \<and> specific_heat_data s \<noteq> [] \<and> susceptibility_data s \<noteq> []
          \<and> (lattice_size s0 \<noteq> 0 \<and> self_T (zn_model s) \<noteq> 0 \<longrightarrow>
               last (specific_heat_data s)
                 = Some ((\<Sum>e\<leftarrow>energy_data s. (e - sum_list (energy_data s) / real k)\<^sup>2) / real k
                         / ((real_of_int (lattice_size s0))\<^sup>2 * (self_T (zn_model s))\<^sup>2))
               \<and> last (susceptibility_data s)
                 = Some ((\<Sum>x\<leftarrow>map real_of_int (magnetization_data s).
                            (x - sum_list (map real_of_int (magnetization_data s)) / real k)\<^sup>2)
                         / real k
                         / ((real_of_int (lattice_size s0))\<^sup>2 * self_T (zn_model s))))"
    if k2: "2 \<le> k"
  proof -
    from k2 obtain j where j: "k = Suc j" "1 \<le> j" by (cases k) auto
    from run_frames_Suc[OF assms(5)[unfolded j(1)]] obtain s1 where
      s1: "run_frames [0..<j] rnd s0 = Inr s1" "update j (rnd j) s1 = Inr s" by blast
    note len1 = run_frames_lengths[OF s1(1)]
    have ne: "energy_data s1 \<noteq> []" using len1 j(2) by auto
    note u = update_effect[OF s1(2)]
    have T: "self_T (zn_model s) = temperature_range s0 ! (k - 1)"
      using u(4) len1 j(1) by simp
    have sh: "specific_heat_data s = specific_heat_data s1
             @ [float_div (np_var (energy_data s))
                  (real_of_int ((lattice_size s1)\<^sup>2) * (self_T (zn_model s))\<^sup>2)]"
      and su: "susceptibility_data s = susceptibility_data s1
             @ [float_div (np_var (map real_of_int (magnetization_data s)))
                  (real_of_int ((lattice_size s1)\<^sup>2) * self_T (zn_model s))]"
      using u(8)[OF ne] by simp_all
    have ls: "lattice_size s1 = lattice_size s0" using len1 by simp
    have q: "last (specific_heat_data s)
                 = Some ((\<Sum>e\<leftarrow>energy_data s. (e - sum_list (energy_data s) / real k)\<^sup>2) / real k
                         / ((real_of_int (lattice_size s0))\<^sup>2 * (self_T (zn_model s))\<^sup>2))
               \<and> last (susceptibility_data s)
                 = Some ((\<Sum>x\<leftarrow>map real_of_int (magnetization_data s).
                            (x - sum_list (map real_of_int (magnetization_data s)) / real k)\<^sup>2)
                         / real k
                         / ((real_of_int (lattice_size s0))\<^sup>2 * self_T (zn_model s)))"
      if "lattice_size s0 \<noteq> 0 \<and> self_T (zn_model s) \<noteq> 0"
      using that unfolding sh su ls
      by (simp add: float_div_def np_var_formula l)
    show ?thesis using T sh su q by simp
  qed
  show ?thesis using l one two by blast
qed

lemma trial_one_cell_down:
  "t \<noteq> 0 \<Longrightarrow>
   trial \<lparr> self_L = 1, self_n = 2, self_T = t, self_H = 1, lattice = [[1]],
           energy = e, magnetization = mg \<rparr>
         \<lparr> rand_x = 0, rand_y = 0, rand_delta = 1, rand_u = 0 \<rparr>
   = Inr \<lparr> self_L = 1, self_n = 2, self_T = t, self_H = 1, lattice = [[0]],
           energy = e + 2, magnetization = mg - 2 \<rparr>"
  by (simp add: trial_def eval_defs)

lemma upt_2: "[0..<2] = [0, Suc 0]"
  by (simp add: numeral_2_eq_2)




theorem observable_statistics_witness:
  "run_frames [0..<2] (\<lambda>f i. \<lparr> rand_x = 0, rand_y = 0, rand_delta = 1, rand_u = 0 \<rparr>)
     \<lparr> zn_model = \<lparr> self_L = 1, self_n = 2, self_T = 2, self_H = 1, lattice = [[0]],
                    energy = - 3 / 2, magnetization = - 1 \<rparr>,
       lattice_size = 1, temperature_range = [2, 1 / 2], energy_data = [],
       magnetization_data = [], specific_heat_data = [], susceptibility_data = [] \<rparr>
   = Inr \<lparr> zn_model = \<lparr> self_L = 1, self_n = 2, self_T = 1 / 2, self_H = 1, lattice = [[0]],
                    energy = - 3 / 2, magnetization = - 1 \<rparr>,
       lattice_size = 1, temperature_range = [2, 1 / 2], energy_data = [- 7 / 2, - 3 / 2],
       magnetization_data = [1, - 1], specific_heat_data = [Some 4],
       susceptibility_data = [Some 2] \<rparr>
   \<and> (\<Sum>e\<leftarrow>[- 7 / 2, - 3 / 2 :: real]. (e - sum_list [- 7 / 2, - 3 / 2] / real 2)\<^sup>2) / real 2
       / ((real_of_int 1)\<^sup>2 * (1 / 2)\<^sup>2) = 4
   \<and> (\<Sum>x\<leftarrow>map real_of_int [1, - 1]. (x - sum_list (map real_of_int [1, - 1]) / real 2)\<^sup>2)
       / real 2 / ((real_of_int 1)\<^sup>2 * (1 / 2)) = 2"
proof -
  let ?rnd = "\<lambda>(f::nat) (i::nat). \<lparr> rand_x = 0, rand_y = 0, rand_delta = 1, rand_u = 0 \<rparr>"
  let ?start = "\<lparr> zn_model = \<lparr> self_L = 1, self_n = 2, self_T = 2, self_H = 1, lattice = [[0]],
                    energy = - 3 / 2, magnetization = - 1 \<rparr>,
       lattice_size = 1, temperature_range = [2, 1 / 2], energy_data = [],
       magnetization_data = [], specific_heat_data = [], susceptibility_data = [] \<rparr>"
  let ?final = "\<lparr> zn_model = \<lparr> self_L = 1, self_n = 2, self_T = 1 / 2, self_H = 1, lattice = [[0]],
                    energy = - 3 / 2, magnetization = - 1 \<rparr>,
       lattice_size = 1, temperature_range = [2, 1 / 2], energy_data = [- 7 / 2, - 3 / 2],
       magnetization_data = [1, - 1], specific_heat_data = [Some 4],
       susceptibility_data = [Some 2] \<rparr>"
  have run: "run_frames [0..<2] ?rnd ?start = Inr ?final"
    by (simp add: upt_2 update_def array_get_def metropolis_step_def trial_one_cell_up
        trial_one_cell_down float_div_def np_var_def np_mean_def power2_eq_square)
  have e: "energy_data ?start = []" "magnetization_data ?start = []"
    "specific_heat_data ?start = []" "susceptibility_data ?start = []"
    by simp_all
  note t = observable_statistics[OF e run]
  have k: "2 \<le> (2::nat)" by simp
  have nz: "lattice_size ?start \<noteq> 0 \<and> self_T (zn_model ?final) \<noteq> 0" by simp
  note q = t[THEN conjunct2, THEN conjunct2, THEN conjunct2, rule_format, OF k,
             THEN conjunct2, THEN conjunct2, THEN conjunct2, rule_format, OF nz]
  show ?thesis using run q by (simp add: power2_eq_square)
qed

end
